theory Spec2Isabelle
  imports Main "HOL-Library.Product_Lexorder" "HOL-Library.Multiset" "HOL-Library.Extended_Nat"
begin

section \<open>Data model of the flow canvas\<close>

text \<open>
  The canvas (\<^verbatim>\<open>src/components/FlowCanvas.jsx\<close>) reads a job made of components
  (the nodes) and flows (the edges). Identifiers and type names are JavaScript strings;
  they are modelled as \<^typ>\<open>string\<close> and taken to be ASCII. Pixel coordinates are
  JavaScript numbers; they are modelled as \<^typ>\<open>int\<close>, so every sum of the layout pass
  is exact. The number that \<^verbatim>\<open>parseInt\<close> returns is modelled as the double it is. A field that may be \<^verbatim>\<open>undefined\<close> or \<^verbatim>\<open>null\<close> in the source is an
  \<^typ>\<open>'a option\<close>.
\<close>

record position =
  x :: int
  y :: int

record component =
  comp_id :: string
  original_type :: "string option"
  comp_type :: "string option"
  position :: position
  active :: bool

record flow =
  flow_name :: string
  flow_from :: string
  flow_to :: string
  flow_type :: string

text \<open>
  \<^verbatim>\<open>job.flows\<close> may be missing: every reader writes \<^verbatim>\<open>job.flows || []\<close>. The fields
  \<^verbatim>\<open>subjobs\<close> and \<^verbatim>\<open>triggers\<close> are opaque to the canvas, which only ever resets them.
\<close>

record job =
  components :: "component list"
  flows :: "flow list option"
  subjobs :: "string list"
  triggers :: "string list"

datatype category = Input | Transform | Output

record ports =
  inputs :: "string list"
  outputs :: "string list"

section \<open>JavaScript string helpers\<close>

text \<open>\<^verbatim>\<open>String.prototype.toLowerCase\<close> on ASCII text: only \<^verbatim>\<open>A\<close>..\<^verbatim>\<open>Z\<close> change.\<close>

definition toLowerChar :: "char \<Rightarrow> char" where
  "toLowerChar c =
     (case map_of (zip ''ABCDEFGHIJKLMNOPQRSTUVWXYZ'' ''abcdefghijklmnopqrstuvwxyz'') c of
        Some l \<Rightarrow> l
      | None \<Rightarrow> c)"

definition toLowerCase :: "string \<Rightarrow> string" where
  "toLowerCase s = map toLowerChar s"

text \<open>
  A string that may be undefined is truthy when it is a non-empty string;
  \<^verbatim>\<open>a || b\<close> is \<^verbatim>\<open>a\<close> when \<^verbatim>\<open>a\<close> is truthy and \<^verbatim>\<open>b\<close> otherwise.
\<close>

definition truthy :: "string option \<Rightarrow> bool" where
  "truthy v = (case v of None \<Rightarrow> False | Some s \<Rightarrow> s \<noteq> [])"

definition orElse :: "string option \<Rightarrow> string option \<Rightarrow> string option" where
  "orElse a b = (if truthy a then a else b)"

definition orDefault :: "string option \<Rightarrow> string \<Rightarrow> string" where
  "orDefault a d = (case a of None \<Rightarrow> d | Some s \<Rightarrow> if s = [] then d else s)"

text \<open>\<^verbatim>\<open>s.replace('t', '')\<close> with a string pattern removes the first occurrence only.\<close>

fun replaceFirst_t :: "string \<Rightarrow> string" where
  "replaceFirst_t [] = []"
| "replaceFirst_t (c # cs) = (if c = CHR ''t'' then cs else c # replaceFirst_t cs)"

section \<open>Property lookup on an object literal\<close>

text \<open>
  \<^verbatim>\<open>registry[key]\<close> on an object literal finds the literal's own entry for the key or,
  when there is none, the member that the literal inherits from \<^verbatim>\<open>Object.prototype\<close>
  under that name; only when both are missing is the result \<^verbatim>\<open>undefined\<close>. Every
  inherited member is a function or an object, hence truthy.
\<close>

definition objectPrototypeKeys :: "string list" where
  "objectPrototypeKeys =
     [''constructor'', ''__proto__'', ''hasOwnProperty'', ''isPrototypeOf'',
      ''propertyIsEnumerable'', ''toLocaleString'', ''toString'', ''valueOf'',
      ''__defineGetter__'', ''__defineSetter__'', ''__lookupGetter__'', ''__lookupSetter__'']"

datatype 'v lookup = Own 'v | Inherited string | Missing

definition objectLookup :: "(string \<times> 'v) list \<Rightarrow> string \<Rightarrow> 'v lookup" where
  "objectLookup literal key =
     (case map_of literal key of
        Some v \<Rightarrow> Own v
      | None \<Rightarrow> if key \<in> set objectPrototypeKeys then Inherited key else Missing)"

section \<open>Node classifier\<close>

text \<open>The inline category registry of \<^verbatim>\<open>getComponentCategory\<close>, in source order.\<close>

definition categoryRegistry :: "(string \<times> category) list" where
  "categoryRegistry =
     [(''file_input_delimited'', Input),
      (''fileinputdelimited'', Input),
      (''oracle_input'', Input),
      (''oracleinput'', Input),
      (''mssql_input'', Input),
      (''mssqlinput'', Input),
      (''fixed_flow_input'', Input),
      (''fixedflowinput'', Input),
      (''row_generator'', Input),
      (''rowgenerator'', Input),
      (''filter_rows'', Transform),
      (''filterrows'', Transform),
      (''map'', Transform),
      (''aggregate_row'', Transform),
      (''aggregaterow'', Transform),
      (''unique_row'', Transform),
      (''uniquerow'', Transform),
      (''join'', Transform),
      (''unite'', Transform),
      (''sort_row'', Transform),
      (''sortrow'', Transform),
      (''file_output_delimited'', Output),
      (''fileoutputdelimited'', Output),
      (''oracle_output'', Output),
      (''oracleoutput'', Output),
      (''file_output_positional'', Output),
      (''fileoutputpositional'', Output)]"

text \<open>
  The key \<^verbatim>\<open>getComponentCategory\<close> looks up:
  \<^verbatim>\<open>original_type?.toLowerCase() || type?.toLowerCase() || 'unknown'\<close>, then one leading
  \<^verbatim>\<open>t\<close> is dropped when the string is longer than one character.
\<close>

definition stripLeading_t :: "string \<Rightarrow> string" where
  "stripLeading_t s =
     (case s of
        c # cs \<Rightarrow> if c = CHR ''t'' \<and> length s > 1 then cs else s
      | [] \<Rightarrow> s)"

definition componentType :: "component \<Rightarrow> string" where
  "componentType c =
     stripLeading_t
       (orDefault
          (orElse (map_option toLowerCase (original_type c))
                  (map_option toLowerCase (comp_type c)))
          ''unknown'')"

text \<open>
  \<^verbatim>\<open>const categoryInfo = registry[componentType] || { category: 'Transform' }\<close> and
  then \<^verbatim>\<open>categoryInfo.category\<close>. An inherited member is truthy, so the default is not
  taken, and it has no \<^verbatim>\<open>category\<close> property: the result is \<^verbatim>\<open>undefined\<close>, here
  \<open>None\<close>.
\<close>

definition getComponentCategory :: "component \<Rightarrow> category option" where
  "getComponentCategory c =
     (case objectLookup categoryRegistry (componentType c) of
        Own cat \<Rightarrow> Some cat
      | Inherited member \<Rightarrow> None
      | Missing \<Rightarrow> Some Transform)"

text \<open>The inline port registry of \<^verbatim>\<open>getComponentRegistryInfo\<close>, in source order.\<close>

definition portRegistry :: "(string \<times> ports) list" where
  "portRegistry =
     [(''file_input_delimited'', \<lparr>inputs = [], outputs = [''main'']\<rparr>),
      (''file_output_delimited'', \<lparr>inputs = [''main''], outputs = [''main'']\<rparr>),
      (''map'', \<lparr>inputs = [''main''], outputs = [''main'']\<rparr>),
      (''filter_rows'', \<lparr>inputs = [''main''], outputs = [''main'', ''reject'']\<rparr>),
      (''aggregate_row'', \<lparr>inputs = [''main''], outputs = [''main'', ''reject'']\<rparr>),
      (''unique_row'', \<lparr>inputs = [''main''], outputs = [''main'']\<rparr>),
      (''oracle_input'', \<lparr>inputs = [], outputs = [''main'', ''reject'']\<rparr>),
      (''oracle_output'', \<lparr>inputs = [''main''], outputs = []\<rparr>),
      (''join'', \<lparr>inputs = [''main'', ''lookup''], outputs = [''main'', ''reject'']\<rparr>),
      (''unite'', \<lparr>inputs = [''main'', ''lookup''], outputs = [''main'']\<rparr>),
      (''log_row'', \<lparr>inputs = [''main''], outputs = [''main'']\<rparr>),
      (''python_component'', \<lparr>inputs = [], outputs = [''main'']\<rparr>),
      (''die'', \<lparr>inputs = [''main''], outputs = []\<rparr>),
      (''warn'', \<lparr>inputs = [''main''], outputs = [''main'']\<rparr>)]"

definition defaultPorts :: ports where
  "defaultPorts = \<lparr>inputs = [''main''], outputs = [''main'']\<rparr>"

text \<open>
  The key \<^verbatim>\<open>getComponentRegistryInfo\<close> looks up:
  \<^verbatim>\<open>original_type?.toLowerCase().replace('t', '') || type?.toLowerCase() || 'default'\<close>.
  Nothing in the body can throw on these inputs, so the \<^verbatim>\<open>catch\<close> branch (which
  returns the same default) is never taken.
\<close>

definition componentKey :: "component \<Rightarrow> string" where
  "componentKey c =
     orDefault
       (orElse (map_option (\<lambda>s. replaceFirst_t (toLowerCase s)) (original_type c))
               (map_option toLowerCase (comp_type c)))
       ''default''"

text \<open>
  \<^verbatim>\<open>return registry[componentKey] || { inputs: ["main"], outputs: ["main"] }\<close>: the
  result is a port record, or the inherited member found under the key.
\<close>

datatype registryInfo = Ports ports | InheritedMember string

definition getComponentRegistryInfo :: "component \<Rightarrow> registryInfo" where
  "getComponentRegistryInfo c =
     (case objectLookup portRegistry (componentKey c) of
        Own p \<Rightarrow> Ports p
      | Inherited member \<Rightarrow> InheritedMember member
      | Missing \<Rightarrow> Ports defaultPorts)"

section \<open>Candidate selection and ordering\<close>

definition existingFlows :: "job \<Rightarrow> flow list" where
  "existingFlows j = (case flows j of None \<Rightarrow> [] | Some fs \<Rightarrow> fs)"

definition componentsWithOutgoing :: "job \<Rightarrow> string set" where
  "componentsWithOutgoing j = set (map flow_from (existingFlows j))"

definition availableNodes :: "job \<Rightarrow> component list" where
  "availableNodes j =
     filter (\<lambda>component. comp_id component \<notin> componentsWithOutgoing j) (components j)"

text \<open>
  \<^verbatim>\<open>getNumericSuffix\<close>: the regular expression \<^verbatim>\<open>/_(\d+)$/\<close> matches exactly when the
  string ends in an underscore followed by one or more decimal digits, and the group is
  then the whole trailing run of digits. \<^verbatim>\<open>parseInt(..., 10)\<close> of a digit string is
  the Number for the integer its digits denote: that integer when it is below \<open>2 ^ 53\<close>,
  and otherwise the nearest double (a 53-bit significand, ties to the even significand),
  which is \<^verbatim>\<open>Infinity\<close> from \<open>2 ^ 1024\<close> on. Beyond 20
  significant digits the language lets an engine approximate the integer first; the
  model takes the correctly rounded double there too. The digits denote an integer
  (\<^typ>\<open>int\<close>); a double that is a natural number or \<^verbatim>\<open>Infinity\<close> is a value of
  \<^typ>\<open>enat\<close>.
\<close>

definition isDigit :: "char \<Rightarrow> bool" where
  "isDigit c = (c \<in> set ''0123456789'')"

definition digitValue :: "char \<Rightarrow> int" where
  "digitValue c =
     (case map_of (zip ''0123456789'' [0, 1, 2, 3, 4, 5, 6, 7, 8, 9]) c of
        Some d \<Rightarrow> d
      | None \<Rightarrow> 0)"

definition parseInt10 :: "string \<Rightarrow> int" where
  "parseInt10 ds = foldl (\<lambda>acc c. 10 * acc + digitValue c) 0 ds"

text \<open>The number of low bits that rounding to a 53-bit significand drops.\<close>

function doubleExponent :: "int \<Rightarrow> nat" where
  "doubleExponent n = (if n < 2 ^ 53 then 0 else Suc (doubleExponent (n div 2)))"
  by pat_completeness auto
termination
  by (relation "measure nat") auto

declare doubleExponent.simps [simp del]

definition toDouble :: "int \<Rightarrow> enat" where
  "toDouble n =
     (if n < 2 ^ 53 then enat (nat n)
      else let e = doubleExponent n; q = n div 2 ^ e; r = n mod 2 ^ e;
               q' = (if 2 * r > 2 ^ e \<or> (2 * r = 2 ^ e \<and> odd q) then q + 1 else q)
           in if q' * 2 ^ e \<ge> 2 ^ 1024 then \<infinity> else enat (nat (q' * 2 ^ e)))"

definition getNumericSuffix :: "string \<Rightarrow> enat" where
  "getNumericSuffix componentId =
     (let r = rev componentId; ds = takeWhile isDigit r in
      case dropWhile isDigit r of
        [] \<Rightarrow> 0
      | u # _ \<Rightarrow> if u = CHR ''_'' \<and> ds \<noteq> [] then toDouble (parseInt10 (rev ds)) else 0)"

text \<open>
  \<^verbatim>\<open>categoryPriority[category] || 2\<close>: the three category names have their own entry,
  and \<^verbatim>\<open>undefined\<close> finds nothing and takes the default.
\<close>

fun categoryPriority :: "category option \<Rightarrow> nat" where
  "categoryPriority (Some Input) = 1"
| "categoryPriority (Some Transform) = 2"
| "categoryPriority (Some Output) = 3"
| "categoryPriority None = 2"

text \<open>
  The comparator handed to \<^verbatim>\<open>availableNodes.sort\<close>. The sort reads its result only
  as negative, positive or neither, and takes \<^verbatim>\<open>NaN\<close> as neither. The difference of
  two doubles has the sign of their exact difference, and
  \<^verbatim>\<open>Infinity - Infinity\<close> is \<^verbatim>\<open>NaN\<close>; \<open>differenceSign\<close> is that reading of the
  difference of two suffixes.
\<close>

definition differenceSign :: "enat \<Rightarrow> enat \<Rightarrow> int" where
  "differenceSign u v = (if u < v then - 1 else if v < u then 1 else 0)"

definition compareNodes :: "component \<Rightarrow> component \<Rightarrow> int" where
  "compareNodes a b =
     (let priorityDiff = int (categoryPriority (getComponentCategory a))
                         - int (categoryPriority (getComponentCategory b))
      in if priorityDiff \<noteq> 0 then priorityDiff
         else differenceSign (getNumericSuffix (comp_id a)) (getNumericSuffix (comp_id b)))"

text \<open>
  \<^verbatim>\<open>Array.prototype.sort\<close> is a stable sort, and the comparator above is a consistent
  ordering, so its result is the one stable arrangement of the array. It is computed here
  by a stable insertion sort that calls the source's comparator.
\<close>

fun insertNode :: "component \<Rightarrow> component list \<Rightarrow> component list" where
  "insertNode a [] = [a]"
| "insertNode a (b # bs) = (if compareNodes a b \<le> 0 then a # b # bs else b # insertNode a bs)"

definition sortNodes :: "component list \<Rightarrow> component list" where
  "sortNodes cs = foldr insertNode cs []"

text \<open>
  The ordering the comparator induces: category priority first, numeric suffix second
  (the lexicographic order on pairs).
\<close>

definition sortKey :: "component \<Rightarrow> nat \<times> enat" where
  "sortKey c = (categoryPriority (getComponentCategory c), getNumericSuffix (comp_id c))"

definition sortedNodes :: "job \<Rightarrow> component list" where
  "sortedNodes j = sortNodes (availableNodes j)"

definition nodesOfCategory :: "category \<Rightarrow> component list \<Rightarrow> component list" where
  "nodesOfCategory cat cs = filter (\<lambda>node. getComponentCategory node = Some cat) cs"

section \<open>Smart Join\<close>

record fanInSelection =
  upstreamTransforms :: "string list"
  downstreamTransform :: "string option"

record guidedJoinData =
  inputNodes :: "component list"
  transformNodes :: "component list"
  outputNodes :: "component list"
  inputMappings :: "(string \<times> string) list"
  fanInSelection :: fanInSelection
  finalOutput :: "string option"

record connectionDragState =
  isDragging :: bool
  sourceComponentId :: "string option"
  sourcePort :: "string option"
  currentX :: int
  currentY :: int

text \<open>
  A handler reads the current job and state and calls setters. Its model returns the
  calls it makes, in order; a handler that returns without calling anything yields \<open>[]\<close>.
\<close>

datatype effect =
    SetSmartJoinWarning string
  | SetShowSmartJoinModal bool
  | SetGuidedJoinData guidedJoinData
  | SetSelectedNodeId "string option"
  | SetConnectionDragState connectionDragState
  | UpdateJob job
  | LoadJob job

definition insufficientWarning :: string where
  "insufficientWarning = ''At least 2 unconnected components are required for Smart Join.''"

definition ambiguousWarning :: string where
  "ambiguousWarning = ''Multiple execution paths detected. Please define sequence manually.''"

definition noNewConnectionsWarning :: string where
  "noNewConnectionsWarning =
     ''No new connections could be created. Components may already be connected.''"

definition connectionExists :: "flow list \<Rightarrow> component \<Rightarrow> component \<Rightarrow> bool" where
  "connectionExists fs sourceNode targetNode =
     list_ex (\<lambda>f. flow_from f = comp_id sourceNode \<and> flow_to f = comp_id targetNode) fs"

definition newFlow :: "component \<Rightarrow> component \<Rightarrow> flow" where
  "newFlow sourceNode targetNode =
     \<lparr>flow_name = ''main'', flow_from = comp_id sourceNode,
      flow_to = comp_id targetNode, flow_type = ''flow''\<rparr>"

text \<open>
  The loop of step 6 over the consecutive pairs \<^verbatim>\<open>(sortedNodes[i], sortedNodes[i + 1])\<close>;
  each \<^verbatim>\<open>continue\<close> goes on with the next pair. The result is \<^verbatim>\<open>newFlows\<close>.
\<close>

fun createFlows :: "flow list \<Rightarrow> component list \<Rightarrow> flow list" where
  "createFlows fs (sourceNode # targetNode # rest) =
     (if getComponentCategory targetNode = Some Input then createFlows fs (targetNode # rest)
      else if getComponentCategory sourceNode = Some Output
      then createFlows fs (targetNode # rest)
      else if \<not> connectionExists fs sourceNode targetNode
           then newFlow sourceNode targetNode # createFlows fs (targetNode # rest)
           else createFlows fs (targetNode # rest))"
| "createFlows fs [node] = []"
| "createFlows fs [] = []"

definition initialGuidedJoinData :: "component list \<Rightarrow> guidedJoinData" where
  "initialGuidedJoinData ordered =
     \<lparr>inputNodes = nodesOfCategory Input ordered,
      transformNodes = nodesOfCategory Transform ordered,
      outputNodes = nodesOfCategory Output ordered,
      inputMappings = [],
      fanInSelection = \<lparr>upstreamTransforms = [], downstreamTransform = None\<rparr>,
      finalOutput = (case nodesOfCategory Output ordered of
                       [node] \<Rightarrow> Some (comp_id node)
                     | _ \<Rightarrow> None)\<rparr>"

definition isAmbiguous :: "component list \<Rightarrow> bool" where
  "isAmbiguous ordered =
     (length ordered > 5 \<or> length (nodesOfCategory Input ordered) > 1
      \<or> length (nodesOfCategory Output ordered) > 1)"

definition autoJoin :: "job \<Rightarrow> component list \<Rightarrow> effect list" where
  "autoJoin j ordered =
     (if length (nodesOfCategory Input ordered) = 1 \<and> length (nodesOfCategory Output ordered) = 1
      then (let newFlows = createFlows (existingFlows j) ordered in
            if length newFlows > 0
            then [UpdateJob (j\<lparr>flows := Some (existingFlows j @ newFlows)\<rparr>)]
            else [SetSmartJoinWarning noNewConnectionsWarning, SetShowSmartJoinModal True])
      else [])"

definition handleSmartJoin :: "job option \<Rightarrow> effect list" where
  "handleSmartJoin jobOpt =
     (case jobOpt of
        None \<Rightarrow> []
      | Some j \<Rightarrow>
          if components j = [] then []
          else if length (availableNodes j) < 2
          then [SetSmartJoinWarning insufficientWarning, SetShowSmartJoinModal True]
          else if isAmbiguous (sortedNodes j)
          then [SetGuidedJoinData (initialGuidedJoinData (sortedNodes j)),
                SetSmartJoinWarning ambiguousWarning,
                SetShowSmartJoinModal True]
          else autoJoin j (sortedNodes j))"

text \<open>
  Modelled from the spec: \<^verbatim>\<open>updateJob\<close> and \<^verbatim>\<open>loadJob\<close> come from the job context,
  which is not part of this file. The specification describes them as the atomic commit
  that replaces the current graph; the React state setters replace the state they name.
\<close>

record canvas =
  currentJob :: "job option"
  selectedNodeId :: "string option"
  connectionDrag :: connectionDragState
  smartJoinWarning :: string
  showSmartJoinModal :: bool
  guidedJoin :: guidedJoinData

fun applyEffect :: "effect \<Rightarrow> canvas \<Rightarrow> canvas" where
  "applyEffect (SetSmartJoinWarning w) s = s\<lparr>smartJoinWarning := w\<rparr>"
| "applyEffect (SetShowSmartJoinModal b) s = s\<lparr>showSmartJoinModal := b\<rparr>"
| "applyEffect (SetGuidedJoinData g) s = s\<lparr>guidedJoin := g\<rparr>"
| "applyEffect (SetSelectedNodeId n) s = s\<lparr>selectedNodeId := n\<rparr>"
| "applyEffect (SetConnectionDragState d) s = s\<lparr>connectionDrag := d\<rparr>"
| "applyEffect (UpdateJob j) s = s\<lparr>currentJob := Some j\<rparr>"
| "applyEffect (LoadJob j) s = s\<lparr>currentJob := Some j\<rparr>"

definition applyEffects :: "effect list \<Rightarrow> canvas \<Rightarrow> canvas" where
  "applyEffects es s = fold applyEffect es s"

definition smartJoinEvent :: "canvas \<Rightarrow> canvas" where
  "smartJoinEvent s = applyEffects (handleSmartJoin (currentJob s)) s"

section \<open>Deleting nodes and clearing the canvas\<close>

text \<open>
  \<^verbatim>\<open>handleDeleteNode\<close> returns at once when there is no job or the id is falsy (the empty
  string); otherwise it commits the job without the node and without its flows, and
  clears the selection.
\<close>

definition handleDeleteNode :: "job option \<Rightarrow> string \<Rightarrow> effect list" where
  "handleDeleteNode jobOpt nodeId =
     (case jobOpt of
        None \<Rightarrow> []
      | Some j \<Rightarrow>
          if nodeId = [] then []
          else [UpdateJob (j\<lparr>components := filter (\<lambda>component. comp_id component \<noteq> nodeId)
                                                  (components j),
                              flows := Some (filter (\<lambda>f. flow_from f \<noteq> nodeId \<and> flow_to f \<noteq> nodeId)
                                                    (existingFlows j))\<rparr>),
                SetSelectedNodeId None])"

definition handleClearCanvas :: "job option \<Rightarrow> effect list" where
  "handleClearCanvas jobOpt =
     (case jobOpt of
        None \<Rightarrow> []
      | Some j \<Rightarrow>
          [LoadJob (j\<lparr>components := [], flows := Some [], subjobs := [], triggers := []\<rparr>),
           SetSelectedNodeId None])"

definition handleNodeClick :: "string \<Rightarrow> effect list" where
  "handleNodeClick componentId = [SetSelectedNodeId (Some componentId)]"

text \<open>
  The key listener: \<^verbatim>\<open>Delete\<close> or \<^verbatim>\<open>Backspace\<close>, a truthy selection, and a target that
  is not a text field (\<open>inTextField\<close> stands for the \<^verbatim>\<open>tagName\<close> test).
\<close>

definition handleKeyDown :: "job option \<Rightarrow> string option \<Rightarrow> string \<Rightarrow> bool \<Rightarrow> effect list" where
  "handleKeyDown jobOpt selected key inTextField =
     (case selected of
        None \<Rightarrow> []
      | Some nodeId \<Rightarrow>
          if (key = ''Delete'' \<or> key = ''Backspace'') \<and> nodeId \<noteq> [] \<and> \<not> inTextField
          then handleDeleteNode jobOpt nodeId
          else [])"

section \<open>Manual connection protocol\<close>

definition idleDragState :: connectionDragState where
  "idleDragState =
     \<lparr>isDragging = False, sourceComponentId = None, sourcePort = None,
      currentX = 0, currentY = 0\<rparr>"

text \<open>
  \<^verbatim>\<open>handleAnchorMouseDown\<close>. The start coordinates come from DOM rectangles and are
  parameters here. The two listeners it registers on the document are the next two
  definitions.
\<close>

definition handleAnchorMouseDown ::
    "string \<Rightarrow> string option \<Rightarrow> string \<Rightarrow> int \<Rightarrow> int \<Rightarrow> effect list" where
  "handleAnchorMouseDown componentId port anchorType startX startY =
     (if anchorType \<noteq> ''output'' then []
      else [SetConnectionDragState
              \<lparr>isDragging = True, sourceComponentId = Some componentId, sourcePort = port,
               currentX = startX, currentY = startY\<rparr>])"

definition anchorDragMouseMove :: "connectionDragState \<Rightarrow> int \<Rightarrow> int \<Rightarrow> effect list" where
  "anchorDragMouseMove prev cursorX cursorY =
     [SetConnectionDragState (prev\<lparr>currentX := cursorX, currentY := cursorY\<rparr>)]"

definition anchorDragMouseUp :: "effect list" where
  "anchorDragMouseUp = [SetConnectionDragState idleDragState]"

text \<open>
  \<^verbatim>\<open>handleAnchorMouseUp\<close>. Anchors are drawn for the components of a job, so the handler
  reads \<^verbatim>\<open>job.flows\<close> of an existing job. Every setter call that sets \<^verbatim>\<open>isDragging\<close>
  also stores the source id, so the branch for a dragging state without a source id is
  never reached; it is written as no commit.
\<close>

definition handleAnchorMouseUp ::
    "job \<Rightarrow> connectionDragState \<Rightarrow> string \<Rightarrow> string \<Rightarrow> effect list" where
  "handleAnchorMouseUp j drag targetComponentId anchorType =
     (if \<not> isDragging drag \<or> anchorType \<noteq> ''input'' then []
      else if sourceComponentId drag = Some targetComponentId then []
      else if list_ex (\<lambda>f. Some (flow_from f) = sourceComponentId drag
                           \<and> flow_to f = targetComponentId) (existingFlows j)
      then []
      else (case sourceComponentId drag of
              None \<Rightarrow> []
            | Some source \<Rightarrow>
                [UpdateJob (j\<lparr>flows := Some (existingFlows j @
                     [\<lparr>flow_name = orDefault (sourcePort drag) ''main'',
                       flow_from = source,
                       flow_to = targetComponentId,
                       flow_type = ''flow''\<rparr>])\<rparr>)]))"

section \<open>Events of the canvas\<close>

datatype event =
    SmartJoin
  | NodeClick string
  | KeyDown string bool
  | ClearCanvas
  | AnchorMouseDown string "string option" string int int
  | AnchorMouseUp string string
  | DragMouseMove int int
  | DragMouseUp

fun handle :: "canvas \<Rightarrow> event \<Rightarrow> effect list" where
  "handle s SmartJoin = handleSmartJoin (currentJob s)"
| "handle s (NodeClick componentId) = handleNodeClick componentId"
| "handle s (KeyDown key inTextField) =
     handleKeyDown (currentJob s) (selectedNodeId s) key inTextField"
| "handle s ClearCanvas = handleClearCanvas (currentJob s)"
| "handle s (AnchorMouseDown componentId port anchorType startX startY) =
     handleAnchorMouseDown componentId port anchorType startX startY"
| "handle s (AnchorMouseUp targetComponentId anchorType) =
     (case currentJob s of
        None \<Rightarrow> []
      | Some j \<Rightarrow> handleAnchorMouseUp j (connectionDrag s) targetComponentId anchorType)"
| "handle s (DragMouseMove cursorX cursorY) =
     anchorDragMouseMove (connectionDrag s) cursorX cursorY"
| "handle s DragMouseUp = anchorDragMouseUp"

definition step :: "canvas \<Rightarrow> event \<Rightarrow> canvas" where
  "step s e = applyEffects (handle s e) s"

definition nodeIds :: "job \<Rightarrow> string set" where
  "nodeIds j = comp_id ` set (components j)"

definition referentialIntegrity :: "job \<Rightarrow> bool" where
  "referentialIntegrity j =
     list_all (\<lambda>f. flow_from f \<in> nodeIds j \<and> flow_to f \<in> nodeIds j) (existingFlows j)"

definition jobIntegrity :: "job option \<Rightarrow> bool" where
  "jobIntegrity jobOpt = (case jobOpt of None \<Rightarrow> True | Some j \<Rightarrow> referentialIntegrity j)"

text \<open>
  The ends of the connection that a release on the anchor of \<open>targetComponentId\<close> would
  create are nodes of the current job.
\<close>

definition connectionEndsExist :: "canvas \<Rightarrow> string \<Rightarrow> bool" where
  "connectionEndsExist s targetComponentId =
     (case currentJob s of
        None \<Rightarrow> True
      | Some j \<Rightarrow>
          targetComponentId \<in> nodeIds j
          \<and> (case sourceComponentId (connectionDrag s) of
                None \<Rightarrow> True
              | Some source \<Rightarrow> source \<in> nodeIds j))"

section \<open>Collision avoidance\<close>

definition NODE_WIDTH :: int where "NODE_WIDTH = 140"
definition NODE_HEIGHT :: int where "NODE_HEIGHT = 80"
definition MIN_OFFSET :: int where "MIN_OFFSET = 40"

record adjustedComponent = component +
  renderPosition :: position


definition xOverlap :: "adjustedComponent \<Rightarrow> adjustedComponent \<Rightarrow> bool" where
  "xOverlap nodeA nodeB =
     (let aLeft = x (renderPosition nodeA); aRight = aLeft + NODE_WIDTH;
          bLeft = x (renderPosition nodeB); bRight = bLeft + NODE_WIDTH
      in aLeft < bRight \<and> aRight > bLeft)"

definition yOverlap :: "adjustedComponent \<Rightarrow> adjustedComponent \<Rightarrow> bool" where
  "yOverlap nodeA nodeB =
     (let aTop = y (renderPosition nodeA); aBottom = aTop + NODE_HEIGHT;
          bTop = y (renderPosition nodeB); bBottom = bTop + NODE_HEIGHT
      in aTop < bBottom \<and> aBottom > bTop)"

definition setRenderY :: "adjustedComponent \<Rightarrow> int \<Rightarrow> adjustedComponent" where
  "setRenderY node v = node\<lparr>renderPosition := (renderPosition node)\<lparr>y := v\<rparr>\<rparr>"

text \<open>The body of the inner loop for the pair \<^verbatim>\<open>(i, j)\<close>; both indices are in range there.\<close>

definition adjustPair :: "nat \<Rightarrow> nat \<Rightarrow> adjustedComponent list \<Rightarrow> adjustedComponent list" where
  "adjustPair i j cs =
     (let nodeA = cs ! i; nodeB = cs ! j;
          aBottom = y (renderPosition nodeA) + NODE_HEIGHT;
          bBottom = y (renderPosition nodeB) + NODE_HEIGHT
      in if xOverlap nodeA nodeB \<and> yOverlap nodeA nodeB
         then (if y (position nodeB) \<ge> y (position nodeA)
               then cs[j := setRenderY nodeB (aBottom + MIN_OFFSET)]
               else cs[i := setRenderY nodeA (bBottom + MIN_OFFSET)])
         else cs)"

text \<open>
  The two loops. The array is never resized, so its length \<open>n\<close> is read once.
\<close>

function innerLoop ::
    "nat \<Rightarrow> nat \<Rightarrow> nat \<Rightarrow> adjustedComponent list \<Rightarrow> adjustedComponent list" where
  "innerLoop n i j cs = (if j < n then innerLoop n i (j + 1) (adjustPair i j cs) else cs)"
  by pat_completeness auto
termination
  by (relation "measure (\<lambda>(n, i, j, cs). n - j)") auto

function outerLoop :: "nat \<Rightarrow> nat \<Rightarrow> adjustedComponent list \<Rightarrow> adjustedComponent list" where
  "outerLoop n i cs = (if i < n then outerLoop n (i + 1) (innerLoop n i (i + 1) cs) else cs)"
  by pat_completeness auto
termination
  by (relation "measure (\<lambda>(n, i, cs). n - i)") auto

declare innerLoop.simps [simp del] outerLoop.simps [simp del]



section \<open>Example graphs\<close>

definition exampleNode :: "string \<Rightarrow> string \<Rightarrow> int \<Rightarrow> int \<Rightarrow> component" where
  "exampleNode ident ty px py =
     \<lparr>comp_id = ident, original_type = Some ty, comp_type = None,
      position = \<lparr>x = px, y = py\<rparr>, active = True\<rparr>"

definition exampleJob :: "component list \<Rightarrow> flow list option \<Rightarrow> job" where
  "exampleJob cs fs = \<lparr>components = cs, flows = fs, subjobs = [], triggers = []\<rparr>"

definition exampleCanvas :: "job \<Rightarrow> canvas" where
  "exampleCanvas j =
     \<lparr>currentJob = Some j, selectedNodeId = None, connectionDrag = idleDragState,
      smartJoinWarning = [], showSmartJoinModal = False,
      guidedJoin = initialGuidedJoinData []\<rparr>"

text \<open>
  Scenario A of the specification: one Input, one Transform and one Output node, listed
  out of order, with no flows.
\<close>

definition scenarioA :: job where
  "scenarioA = exampleJob
     [exampleNode ''out_3'' ''tFileOutputDelimited'' 0 0,
      exampleNode ''map_2'' ''tMap'' 0 0,
      exampleNode ''in_1'' ''tFileInputDelimited'' 0 0] None"

text \<open>Scenario C: two Input nodes and one Output node.\<close>

definition scenarioC :: job where
  "scenarioC = exampleJob
     [exampleNode ''in_1'' ''tFileInputDelimited'' 0 0,
      exampleNode ''in_2'' ''tOracleInput'' 0 0,
      exampleNode ''out_3'' ''tFileOutputDelimited'' 0 0] None"

definition twoOutputs :: job where
  "twoOutputs = exampleJob
     [exampleNode ''in_1'' ''tFileInputDelimited'' 0 0,
      exampleNode ''out_2'' ''tOracleOutput'' 0 0,
      exampleNode ''out_3'' ''tFileOutputDelimited'' 0 0] None"

definition transformOnly :: job where
  "transformOnly = exampleJob
     [exampleNode ''map_1'' ''tMap'' 0 0, exampleNode ''join_2'' ''tJoin'' 0 0] None"

definition emptyJob :: job where
  "emptyJob = exampleJob [] None"

text \<open>Scenario D: a single node.\<close>

definition scenarioD :: job where
  "scenarioD = exampleJob [exampleNode ''map_1'' ''tMap'' 0 0] None"

text \<open>Three candidates of one category, and a job with mixed categories and one flow.\<close>

definition threeOfOneCategory :: job where
  "threeOfOneCategory = exampleJob
     [exampleNode ''n_3'' ''tMap'' 0 0, exampleNode ''n_1'' ''tJoin'' 0 0,
      exampleNode ''n_2'' ''tUnite'' 0 0] None"

definition mixedSuffixes :: job where
  "mixedSuffixes = exampleJob
     [exampleNode ''out_1'' ''tFileOutputDelimited'' 0 0,
      exampleNode ''map_7'' ''tMap'' 0 0,
      exampleNode ''in_9'' ''tFileInputDelimited'' 0 0,
      exampleNode ''map'' ''tMap'' 0 0,
      exampleNode ''done_2'' ''tMap'' 0 0]
     (Some [\<lparr>flow_name = ''main'', flow_from = ''done_2'', flow_to = ''map_7'', flow_type = ''flow''\<rparr>])"

text \<open>
  Two Input nodes and a node whose type is the name of a member that every object
  literal inherits.
\<close>

definition inheritedKeyJob :: job where
  "inheritedKeyJob = exampleJob
     [exampleNode ''in_1'' ''tFileInputDelimited'' 0 0,
      exampleNode ''in_2'' ''tOracleInput'' 0 0,
      exampleNode ''n_3'' ''constructor'' 0 0] None"

text \<open>Two candidates of one category whose suffixes lie just above \<open>2 ^ 53\<close>.\<close>

definition bigSuffixes :: job where
  "bigSuffixes = exampleJob
     [exampleNode ''t_9007199254740993'' ''tMap'' 0 0,
      exampleNode ''t_9007199254740992'' ''tMap'' 0 0] None"

text \<open>Two unconnected nodes, the same two nodes connected, and a drag in progress.\<close>

definition twoNodes :: job where
  "twoNodes = exampleJob
     [exampleNode ''a_1'' ''tFileInputDelimited'' 0 0, exampleNode ''b_2'' ''tMap'' 200 0] None"

definition dragFrom :: "string \<Rightarrow> connectionDragState" where
  "dragFrom source =
     \<lparr>isDragging = True, sourceComponentId = Some source, sourcePort = Some ''main'',
      currentX = 0, currentY = 0\<rparr>"

definition connectedPair :: job where
  "connectedPair = exampleJob
     [exampleNode ''a_1'' ''tFileInputDelimited'' 0 0, exampleNode ''b_2'' ''tMap'' 200 0]
     (Some [\<lparr>flow_name = ''main'', flow_from = ''a_1'', flow_to = ''b_2'', flow_type = ''flow''\<rparr>])"

section \<open>Properties of the collision-avoidance pass\<close>


















section \<open>Properties of the ordering and of Smart Join\<close>

lemma createFlows_member:
  "f \<in> set (createFlows fs nodes) \<Longrightarrow>
   \<exists>i. Suc i < length nodes \<and> f = newFlow (nodes ! i) (nodes ! Suc i)
       \<and> getComponentCategory (nodes ! Suc i) \<noteq> Some Input
       \<and> getComponentCategory (nodes ! i) \<noteq> Some Output
       \<and> \<not> connectionExists fs (nodes ! i) (nodes ! Suc i)"
proof (induction fs nodes rule: createFlows.induct)
  case (1 fs sourceNode targetNode rest)
  let ?P = "\<lambda>ns i. Suc i < length ns \<and> f = newFlow (ns ! i) (ns ! Suc i)
       \<and> getComponentCategory (ns ! Suc i) \<noteq> Some Input
       \<and> getComponentCategory (ns ! i) \<noteq> Some Output
       \<and> \<not> connectionExists fs (ns ! i) (ns ! Suc i)"
  have shift: "\<And>i. ?P (targetNode # rest) i \<Longrightarrow> ?P (sourceNode # targetNode # rest) (Suc i)"
    by simp
  consider (head) "getComponentCategory targetNode \<noteq> Some Input"
      "getComponentCategory sourceNode \<noteq> Some Output"
      "\<not> connectionExists fs sourceNode targetNode"
      "f = newFlow sourceNode targetNode"
    | (tail) "f \<in> set (createFlows fs (targetNode # rest))"
    using "1.prems" by (auto split: if_splits)
  then show ?case
  proof cases
    case head
    then have "?P (sourceNode # targetNode # rest) 0" by simp
    then show ?thesis by blast
  next
    case tail
    have "\<exists>i. ?P (targetNode # rest) i"
    proof (cases "getComponentCategory targetNode = Some Input")
      case True
      with tail "1.IH"(1) show ?thesis by blast
    next
      case notIn: False
      show ?thesis
      proof (cases "getComponentCategory sourceNode = Some Output")
        case True
        with notIn tail "1.IH"(2) show ?thesis by blast
      next
        case notOut: False
        show ?thesis
        proof (cases "connectionExists fs sourceNode targetNode")
          case True
          with notIn notOut tail "1.IH"(4) show ?thesis by blast
        next
          case False
          with notIn notOut tail "1.IH"(3) show ?thesis by blast
        qed
      qed
    qed
    then obtain i where "?P (targetNode # rest) i" ..
    then have "?P (sourceNode # targetNode # rest) (Suc i)" by (rule shift)
    then show ?thesis by blast
  qed
qed simp_all

lemma connectionExists_iff:
  "connectionExists fs s t \<longleftrightarrow> (\<exists>g\<in>set fs. flow_from g = comp_id s \<and> flow_to g = comp_id t)"
  by (simp add: connectionExists_def list_ex_iff)

lemma newFlow_fields:
  "flow_name (newFlow s t) = ''main''" "flow_type (newFlow s t) = ''flow''"
  "flow_from (newFlow s t) = comp_id s" "flow_to (newFlow s t) = comp_id t"
  by (simp_all add: newFlow_def)

lemma createFlows_chain:
  assumes "\<forall>t\<in>set (tl ns). getComponentCategory t \<noteq> Some Input"
    and "\<forall>s\<in>set (butlast ns). getComponentCategory s \<noteq> Some Output"
    and "\<forall>s\<in>set ns. comp_id s \<notin> flow_from ` set fs"
  shows "createFlows fs ns = map (\<lambda>(s, t). newFlow s t) (zip ns (tl ns))"
  using assms
proof (induction fs ns rule: createFlows.induct)
  case (1 fs sourceNode targetNode rest)
  have a: "getComponentCategory targetNode \<noteq> Some Input" using "1.prems"(1) by simp
  have b: "getComponentCategory sourceNode \<noteq> Some Output" using "1.prems"(2) by simp
  have c: "\<not> connectionExists fs sourceNode targetNode"
  proof
    assume "connectionExists fs sourceNode targetNode"
    then obtain g where "g \<in> set fs" and "flow_from g = comp_id sourceNode"
      by (auto simp: connectionExists_iff)
    then have "comp_id sourceNode \<in> flow_from ` set fs" by (metis imageI)
    with "1.prems"(3) show False by simp
  qed
  have "createFlows fs (targetNode # rest)
      = map (\<lambda>(s, t). newFlow s t) (zip (targetNode # rest) (tl (targetNode # rest)))"
  proof (rule "1.IH"(3) [OF a b c])
    show "\<forall>t\<in>set (tl (targetNode # rest)). getComponentCategory t \<noteq> Some Input"
      using "1.prems"(1) by simp
    show "\<forall>s\<in>set (butlast (targetNode # rest)). getComponentCategory s \<noteq> Some Output"
      using "1.prems"(2) by (simp split: if_splits)
    show "\<forall>s\<in>set (targetNode # rest). comp_id s \<notin> flow_from ` set fs"
      using "1.prems"(3) by simp
  qed
  with a b c show ?case by simp
qed simp_all

lemma map_fst_zip_tl: "map fst (zip ns (tl ns)) = butlast ns"
  by (induction ns rule: induct_list012) simp_all

lemma createFlows_chain_from:
  assumes "\<forall>t\<in>set (tl ns). getComponentCategory t \<noteq> Some Input"
    and "\<forall>s\<in>set (butlast ns). getComponentCategory s \<noteq> Some Output"
    and "\<forall>s\<in>set ns. comp_id s \<notin> flow_from ` set fs"
  shows "map flow_from (createFlows fs ns) = map comp_id (butlast ns)"
proof -
  have "map flow_from (map (\<lambda>(s, t). newFlow s t) (zip ns (tl ns)))
      = map comp_id (map fst (zip ns (tl ns)))"
    by (simp add: newFlow_def case_prod_unfold)
  then show ?thesis
    using createFlows_chain [OF assms] by (simp add: map_fst_zip_tl)
qed

lemma compareNodes_le_iff: "compareNodes a b \<le> 0 \<longleftrightarrow> sortKey a \<le> sortKey b"
  by (auto simp: compareNodes_def differenceSign_def sortKey_def Let_def less_eq_prod_def)

lemma insertNode_insort: "insertNode a bs = insort_key sortKey a bs"
  by (induction bs) (simp_all add: compareNodes_le_iff)

lemma sortNodes_sort_key: "sortNodes cs = sort_key sortKey cs"
  by (induction cs) (simp_all add: sortNodes_def insertNode_insort)

lemma mset_sortNodes: "mset (sortNodes cs) = mset cs"
  by (simp add: sortNodes_sort_key)

lemma length_sortNodes: "length (sortNodes cs) = length cs"
  by (simp add: sortNodes_sort_key)

lemma set_sortNodes: "set (sortNodes cs) = set cs"
  by (simp add: sortNodes_sort_key)

lemma sorted_sortNodes: "sorted (map sortKey (sortNodes cs))"
  by (simp add: sortNodes_sort_key)

lemma sortNodes_stable:
  "filter (\<lambda>c. sortKey c = k) (sortNodes cs) = filter (\<lambda>c. sortKey c = k) cs"
  by (simp add: sortNodes_sort_key sort_key_stable)

lemma length_filter_sortNodes: "length (filter P (sortNodes cs)) = length (filter P cs)"
proof -
  have "mset (filter P (sortNodes cs)) = mset (filter P cs)"
    by (simp add: mset_sortNodes)
  then show ?thesis by (metis size_mset)
qed

lemma priority_sorted:
  "sorted (map sortKey cs) \<Longrightarrow> sorted (map (\<lambda>c. categoryPriority (getComponentCategory c)) cs)"
  by (induction cs) (auto simp: sortKey_def less_eq_prod_def)

lemma sorted_priority_split:
  "sorted (map (\<lambda>c. categoryPriority (getComponentCategory c)) cs) \<Longrightarrow>
   cs = nodesOfCategory Input cs
      @ filter (\<lambda>n. getComponentCategory n \<noteq> Some Input \<and> getComponentCategory n \<noteq> Some Output) cs
      @ nodesOfCategory Output cs"
proof (induction cs)
  case Nil
  then show ?case by (simp add: nodesOfCategory_def)
next
  case (Cons c cs)
  let ?mid = "\<lambda>n. getComponentCategory n \<noteq> Some Input \<and> getComponentCategory n \<noteq> Some Output"
  from Cons have ih: "cs = nodesOfCategory Input cs @ filter ?mid cs @ nodesOfCategory Output cs"
    and le: "\<forall>d\<in>set cs. categoryPriority (getComponentCategory c)
                \<le> categoryPriority (getComponentCategory d)"
    by simp_all
  consider (one) "getComponentCategory c = Some Input"
    | (two) "categoryPriority (getComponentCategory c) = 2" "?mid c"
    | (three) "getComponentCategory c = Some Output"
    by (cases "getComponentCategory c" rule: categoryPriority.cases) auto
  then show ?case
  proof cases
    case one
    then show ?thesis using ih by (simp add: nodesOfCategory_def)
  next
    case two
    have "\<forall>d\<in>set cs. getComponentCategory d \<noteq> Some Input"
    proof
      fix d assume "d \<in> set cs"
      with le two(1) have "2 \<le> categoryPriority (getComponentCategory d)" by auto
      then show "getComponentCategory d \<noteq> Some Input" by auto
    qed
    then have "nodesOfCategory Input cs = []"
      by (simp add: nodesOfCategory_def)
    then show ?thesis using ih two(2) by (simp add: nodesOfCategory_def)
  next
    case three
    have "\<forall>d\<in>set cs. getComponentCategory d = Some Output"
    proof
      fix d assume "d \<in> set cs"
      with le three have "3 \<le> categoryPriority (getComponentCategory d)" by auto
      then show "getComponentCategory d = Some Output"
        by (cases "getComponentCategory d" rule: categoryPriority.cases) simp_all
    qed
    then have "nodesOfCategory Input cs = []" "filter ?mid cs = []"
      by (simp_all add: nodesOfCategory_def)
    then show ?thesis using ih three by (simp add: nodesOfCategory_def)
  qed
qed

lemma sortedNodes_split:
  "sortedNodes j = nodesOfCategory Input (sortedNodes j)
      @ filter (\<lambda>n. getComponentCategory n \<noteq> Some Input \<and> getComponentCategory n \<noteq> Some Output)
          (sortedNodes j)
      @ nodesOfCategory Output (sortedNodes j)"
  unfolding sortedNodes_def
  by (rule sorted_priority_split) (rule priority_sorted, rule sorted_sortNodes)

lemma nodesOfCategory_cat:
  "n \<in> set (nodesOfCategory cat cs) \<Longrightarrow> getComponentCategory n = Some cat"
  by (simp add: nodesOfCategory_def)

lemma single_input_output_shape:
  assumes split: "ns = nodesOfCategory Input ns
      @ filter (\<lambda>n. getComponentCategory n \<noteq> Some Input \<and> getComponentCategory n \<noteq> Some Output) ns
      @ nodesOfCategory Output ns"
    and i1: "length (nodesOfCategory Input ns) = 1"
    and o1: "length (nodesOfCategory Output ns) = 1"
  shows "\<forall>t\<in>set (tl ns). getComponentCategory t \<noteq> Some Input"
    and "\<forall>s\<in>set (butlast ns). getComponentCategory s \<noteq> Some Output"
proof -
  from i1 obtain a where a: "nodesOfCategory Input ns = [a]"
    by (cases "nodesOfCategory Input ns") simp_all
  from o1 obtain z where z: "nodesOfCategory Output ns = [z]"
    by (cases "nodesOfCategory Output ns") simp_all
  let ?ts = "filter (\<lambda>n. getComponentCategory n \<noteq> Some Input
                       \<and> getComponentCategory n \<noteq> Some Output) ns"
  have ns: "ns = a # ?ts @ [z]" using split a z by simp
  have tr: "\<forall>t\<in>set ?ts. getComponentCategory t \<noteq> Some Input
                         \<and> getComponentCategory t \<noteq> Some Output"
    by simp
  have zc: "getComponentCategory z = Some Output"
    by (rule nodesOfCategory_cat [of _ _ ns]) (simp add: z)
  have ac: "getComponentCategory a = Some Input"
    by (rule nodesOfCategory_cat [of _ _ ns]) (simp add: a)
  have "tl ns = ?ts @ [z]" by (subst ns) simp
  with tr zc show "\<forall>t\<in>set (tl ns). getComponentCategory t \<noteq> Some Input" by auto
  have "butlast ns = a # ?ts" by (subst ns) (simp add: butlast_append)
  with tr ac show "\<forall>s\<in>set (butlast ns). getComponentCategory s \<noteq> Some Output" by auto
qed

lemma candidates_no_outgoing:
  "\<forall>s\<in>set (sortedNodes j). comp_id s \<notin> flow_from ` set (existingFlows j)"
  by (simp add: sortedNodes_def set_sortNodes availableNodes_def componentsWithOutgoing_def)

lemma length_sortedNodes: "length (sortedNodes j) = length (availableNodes j)"
  by (simp add: sortedNodes_def length_sortNodes)

lemma length_nodesOfCategory_sortedNodes:
  "length (nodesOfCategory cat (sortedNodes j)) = length (nodesOfCategory cat (availableNodes j))"
  by (simp add: sortedNodes_def nodesOfCategory_def length_filter_sortNodes)

lemma isAmbiguous_sortedNodes: "isAmbiguous (sortedNodes j) = isAmbiguous (availableNodes j)"
  by (simp add: isAmbiguous_def length_sortedNodes length_nodesOfCategory_sortedNodes)

lemma auto_path_flows:
  assumes "length (nodesOfCategory Input (sortedNodes j)) = 1"
    and "length (nodesOfCategory Output (sortedNodes j)) = 1"
  shows "createFlows (existingFlows j) (sortedNodes j)
       = map (\<lambda>(s, t). newFlow s t) (zip (sortedNodes j) (tl (sortedNodes j)))"
    and "map flow_from (createFlows (existingFlows j) (sortedNodes j))
       = map comp_id (butlast (sortedNodes j))"
proof -
  note shape = single_input_output_shape [OF sortedNodes_split assms]
  show "createFlows (existingFlows j) (sortedNodes j)
       = map (\<lambda>(s, t). newFlow s t) (zip (sortedNodes j) (tl (sortedNodes j)))"
    by (rule createFlows_chain [OF shape candidates_no_outgoing])
  show "map flow_from (createFlows (existingFlows j) (sortedNodes j))
       = map comp_id (butlast (sortedNodes j))"
    by (rule createFlows_chain_from [OF shape candidates_no_outgoing])
qed

lemma auto_path_nonempty:
  assumes "length (nodesOfCategory Input (sortedNodes j)) = 1"
    and "length (nodesOfCategory Output (sortedNodes j)) = 1"
    and "\<not> length (availableNodes j) < 2"
  shows "createFlows (existingFlows j) (sortedNodes j) \<noteq> []"
proof -
  have "length (createFlows (existingFlows j) (sortedNodes j)) = length (sortedNodes j) - 1"
    by (simp add: auto_path_flows(1) [OF assms(1,2)])
  with assms(3) show ?thesis by (auto simp: length_sortedNodes)
qed

lemma autoJoin_commit:
  assumes "\<not> length (availableNodes j) < 2"
  shows "autoJoin j (sortedNodes j) =
     (if length (nodesOfCategory Input (sortedNodes j)) = 1
         \<and> length (nodesOfCategory Output (sortedNodes j)) = 1
      then [UpdateJob (j\<lparr>flows := Some (existingFlows j
               @ createFlows (existingFlows j) (sortedNodes j))\<rparr>)]
      else [])"
  using auto_path_nonempty [OF _ _ assms] by (simp add: autoJoin_def Let_def)

lemma handleSmartJoin_Some:
  "handleSmartJoin (Some j) =
     (if components j = [] then []
      else if length (availableNodes j) < 2
      then [SetSmartJoinWarning insufficientWarning, SetShowSmartJoinModal True]
      else if isAmbiguous (availableNodes j)
      then [SetGuidedJoinData (initialGuidedJoinData (sortedNodes j)),
            SetSmartJoinWarning ambiguousWarning, SetShowSmartJoinModal True]
      else if length (nodesOfCategory Input (availableNodes j)) = 1
              \<and> length (nodesOfCategory Output (availableNodes j)) = 1
      then [UpdateJob (j\<lparr>flows := Some (existingFlows j
               @ createFlows (existingFlows j) (sortedNodes j))\<rparr>)]
      else [])"
  by (simp add: handleSmartJoin_def isAmbiguous_sortedNodes autoJoin_commit
      length_nodesOfCategory_sortedNodes)

lemma warnings_distinct:
  "insufficientWarning \<noteq> ambiguousWarning" "insufficientWarning \<noteq> noNewConnectionsWarning"
  "ambiguousWarning \<noteq> noNewConnectionsWarning"
  by (simp_all add: insufficientWarning_def ambiguousWarning_def noNewConnectionsWarning_def)

lemma handleSmartJoin_None: "handleSmartJoin None = []"
  by (simp add: handleSmartJoin_def)

lemma no_new_connections_unreachable:
  "SetSmartJoinWarning noNewConnectionsWarning \<notin> set (handleSmartJoin jobOpt)"
proof (cases jobOpt)
  case None
  then show ?thesis by (simp add: handleSmartJoin_None)
next
  case (Some j)
  then show ?thesis
    using warnings_distinct by (auto simp: handleSmartJoin_Some)
qed

lemma commit_shape:
  assumes "UpdateJob j' \<in> set (handleSmartJoin (Some j))"
  shows "handleSmartJoin (Some j) = [UpdateJob j']"
    and "j' = j\<lparr>flows := Some (existingFlows j @ createFlows (existingFlows j) (sortedNodes j))\<rparr>"
    and "components j \<noteq> []" and "\<not> length (availableNodes j) < 2"
    and "length (nodesOfCategory Input (sortedNodes j)) = 1"
    and "length (nodesOfCategory Output (sortedNodes j)) = 1"
  using assms
  by (auto simp: handleSmartJoin_Some length_nodesOfCategory_sortedNodes split: if_splits)

lemma no_LoadJob: "LoadJob j' \<notin> set (handleSmartJoin jobOpt)"
  by (cases jobOpt) (auto simp: handleSmartJoin_None handleSmartJoin_Some)

lemma length_filter_mset_eq:
  "mset xs = mset ys \<Longrightarrow> length (filter P xs) = length (filter P ys)"
  by (metis mset_filter size_mset)

lemma second_run_candidates:
  assumes i1: "length (nodesOfCategory Input (sortedNodes j)) = 1"
    and o1: "length (nodesOfCategory Output (sortedNodes j)) = 1"
    and n2: "\<not> length (availableNodes j) < 2"
  shows "length (availableNodes
            (j\<lparr>flows := Some (existingFlows j @ createFlows (existingFlows j) (sortedNodes j))\<rparr>)) < 2"
proof -
  let ?new = "createFlows (existingFlows j) (sortedNodes j)"
  let ?j' = "j\<lparr>flows := Some (existingFlows j @ ?new)\<rparr>"
  let ?P = "\<lambda>c. comp_id c \<notin> comp_id ` set (butlast (sortedNodes j))"
  have from_new: "flow_from ` set ?new = comp_id ` set (butlast (sortedNodes j))"
    using auto_path_flows(2) [OF i1 o1] by (metis set_map)
  have ex': "existingFlows ?j' = existingFlows j @ ?new"
    by (simp add: existingFlows_def)
  have "availableNodes ?j'
      = filter (\<lambda>c. comp_id c \<notin> flow_from ` set (existingFlows j) \<and> ?P c) (components j)"
    unfolding availableNodes_def componentsWithOutgoing_def ex'
    by (simp add: image_Un from_new)
  then have "availableNodes ?j' = filter ?P (availableNodes j)"
    by (simp add: availableNodes_def componentsWithOutgoing_def)
  then have "length (availableNodes ?j') = length (filter ?P (sortedNodes j))"
    by (simp add: sortedNodes_def length_filter_sortNodes)
  also have "sortedNodes j = butlast (sortedNodes j) @ [last (sortedNodes j)]"
    using n2 by (cases "sortedNodes j" rule: rev_cases) (auto simp: length_sortedNodes [symmetric])
  then have "length (filter ?P (sortedNodes j))
      = length (filter ?P (butlast (sortedNodes j))) + length (filter ?P [last (sortedNodes j)])"
    by (metis filter_append length_append)
  also have "filter ?P (butlast (sortedNodes j)) = []"
    by (simp add: filter_empty_conv)
  finally show ?thesis by simp
qed

lemma second_run_insufficient:
  assumes "UpdateJob j' \<in> set (handleSmartJoin (Some j))"
  shows "handleSmartJoin (Some j') = [SetSmartJoinWarning insufficientWarning, SetShowSmartJoinModal True]"
proof -
  note c = commit_shape [OF assms]
  have "length (availableNodes j') < 2"
    unfolding c(2) by (rule second_run_candidates [OF c(5) c(6) c(4)])
  moreover have "components j' \<noteq> []" using c(3) by (simp add: c(2))
  ultimately show ?thesis by (simp add: handleSmartJoin_Some)
qed

lemma currentJob_applyEffects_no_commit:
  assumes "\<forall>e\<in>set es. \<forall>j. e \<noteq> UpdateJob j \<and> e \<noteq> LoadJob j"
  shows "currentJob (applyEffects es s) = currentJob s"
  using assms unfolding applyEffects_def
proof (induction es arbitrary: s)
  case Nil
  then show ?case by simp
next
  case (Cons e es)
  then have "currentJob (applyEffect e s) = currentJob s"
    by (cases e) simp_all
  with Cons show ?case by simp
qed

lemma smartJoinEvent_job:
  "currentJob (smartJoinEvent s) = currentJob s
   \<or> (\<exists>j j'. currentJob s = Some j \<and> UpdateJob j' \<in> set (handleSmartJoin (Some j))
        \<and> currentJob (smartJoinEvent s) = Some j')"
proof (cases "\<exists>j'. UpdateJob j' \<in> set (handleSmartJoin (currentJob s))")
  case True
  then obtain j' where j': "UpdateJob j' \<in> set (handleSmartJoin (currentJob s))" ..
  then obtain j where j: "currentJob s = Some j"
    by (cases "currentJob s") (simp_all add: handleSmartJoin_None)
  with j' have "handleSmartJoin (currentJob s) = [UpdateJob j']"
    using commit_shape(1) by simp
  then have "currentJob (smartJoinEvent s) = Some j'"
    by (simp add: smartJoinEvent_def applyEffects_def)
  with j j' show ?thesis by auto
next
  case False
  then have "\<forall>e\<in>set (handleSmartJoin (currentJob s)). \<forall>j. e \<noteq> UpdateJob j \<and> e \<noteq> LoadJob j"
    using no_LoadJob by blast
  then show ?thesis
    by (simp add: smartJoinEvent_def currentJob_applyEffects_no_commit)
qed

text \<open>
  Claim C2. For every node sequence and every existing flow list, each flow that the
  Auto-Connector loop creates joins two neighbours \<open>nodes ! i\<close> and \<open>nodes ! Suc i\<close>,
  has the name \<^verbatim>\<open>main\<close> and the type \<^verbatim>\<open>flow\<close>, has a target that is not an Input
  node and a source that is not an Output node, and repeats no existing \<open>(from, to)\<close>
  pair. When the loop creates flows, the job is committed once, with the new flows
  appended to the existing ones; and every commit of Smart Join is that single commit.
\<close>

theorem auto_connector_edges:
  "(\<forall>f\<in>set (createFlows fs nodes).
      \<exists>i. Suc i < length nodes
        \<and> flow_from f = comp_id (nodes ! i) \<and> flow_to f = comp_id (nodes ! Suc i)
        \<and> flow_name f = ''main'' \<and> flow_type f = ''flow''
        \<and> getComponentCategory (nodes ! Suc i) \<noteq> Some Input
        \<and> getComponentCategory (nodes ! i) \<noteq> Some Output
        \<and> (\<forall>g\<in>set fs. \<not> (flow_from g = flow_from f \<and> flow_to g = flow_to f)))
   \<and> (length (nodesOfCategory Input nodes) = 1 \<and> length (nodesOfCategory Output nodes) = 1
        \<and> createFlows (existingFlows j) nodes \<noteq> [] \<longrightarrow>
        autoJoin j nodes =
          [UpdateJob (j\<lparr>flows := Some (existingFlows j @ createFlows (existingFlows j) nodes)\<rparr>)])
   \<and> (\<forall>j'. UpdateJob j' \<in> set (handleSmartJoin (Some j)) \<longrightarrow>
        handleSmartJoin (Some j) =
          [UpdateJob (j\<lparr>flows := Some (existingFlows j
                @ createFlows (existingFlows j) (sortedNodes j))\<rparr>)])"
proof (intro conjI ballI allI impI)
  fix f assume "f \<in> set (createFlows fs nodes)"
  from createFlows_member [OF this] obtain i where i: "Suc i < length nodes"
    "f = newFlow (nodes ! i) (nodes ! Suc i)"
    "getComponentCategory (nodes ! Suc i) \<noteq> Some Input"
    "getComponentCategory (nodes ! i) \<noteq> Some Output"
    "\<not> connectionExists fs (nodes ! i) (nodes ! Suc i)"
    by blast
  from i(5) have "\<forall>g\<in>set fs. \<not> (flow_from g = flow_from f \<and> flow_to g = flow_to f)"
    by (simp add: connectionExists_iff i(2) newFlow_fields)
  with i show "\<exists>i. Suc i < length nodes
        \<and> flow_from f = comp_id (nodes ! i) \<and> flow_to f = comp_id (nodes ! Suc i)
        \<and> flow_name f = ''main'' \<and> flow_type f = ''flow''
        \<and> getComponentCategory (nodes ! Suc i) \<noteq> Some Input
        \<and> getComponentCategory (nodes ! i) \<noteq> Some Output
        \<and> (\<forall>g\<in>set fs. \<not> (flow_from g = flow_from f \<and> flow_to g = flow_to f))"
    by (auto simp: newFlow_fields)
next
  assume "length (nodesOfCategory Input nodes) = 1 \<and> length (nodesOfCategory Output nodes) = 1
        \<and> createFlows (existingFlows j) nodes \<noteq> []"
  then show "autoJoin j nodes =
          [UpdateJob (j\<lparr>flows := Some (existingFlows j @ createFlows (existingFlows j) nodes)\<rparr>)]"
    by (simp add: autoJoin_def Let_def)
next
  fix j' assume "UpdateJob j' \<in> set (handleSmartJoin (Some j))"
  from commit_shape(1,2) [OF this]
  show "handleSmartJoin (Some j) =
          [UpdateJob (j\<lparr>flows := Some (existingFlows j
                @ createFlows (existingFlows j) (sortedNodes j))\<rparr>)]"
    by simp
qed

theorem auto_connector_edges_witness:
  "createFlows (existingFlows scenarioA) (sortedNodes scenarioA) =
     [\<lparr>flow_name = ''main'', flow_from = ''in_1'', flow_to = ''map_2'', flow_type = ''flow''\<rparr>,
      \<lparr>flow_name = ''main'', flow_from = ''map_2'', flow_to = ''out_3'', flow_type = ''flow''\<rparr>]
   \<and> (\<exists>i. Suc i < length (sortedNodes scenarioA)
         \<and> comp_id (sortedNodes scenarioA ! i) = ''in_1''
         \<and> comp_id (sortedNodes scenarioA ! Suc i) = ''map_2''
         \<and> getComponentCategory (sortedNodes scenarioA ! Suc i) \<noteq> Some Input
         \<and> getComponentCategory (sortedNodes scenarioA ! i) \<noteq> Some Output)
   \<and> handleSmartJoin (Some scenarioA) =
       [UpdateJob (scenarioA\<lparr>flows := Some
          [\<lparr>flow_name = ''main'', flow_from = ''in_1'', flow_to = ''map_2'', flow_type = ''flow''\<rparr>,
           \<lparr>flow_name = ''main'', flow_from = ''map_2'', flow_to = ''out_3'', flow_type = ''flow''\<rparr>]\<rparr>)]"
proof -
  let ?f1 = "\<lparr>flow_name = ''main'', flow_from = ''in_1'', flow_to = ''map_2'', flow_type = ''flow''\<rparr>"
  let ?f2 = "\<lparr>flow_name = ''main'', flow_from = ''map_2'', flow_to = ''out_3'', flow_type = ''flow''\<rparr>"
  have ex: "existingFlows scenarioA = []" by code_simp
  have cf: "createFlows (existingFlows scenarioA) (sortedNodes scenarioA) = [?f1, ?f2]"
    by code_simp
  then have mem: "?f1 \<in> set (createFlows (existingFlows scenarioA) (sortedNodes scenarioA))"
    by simp
  have up: "UpdateJob (scenarioA\<lparr>flows := Some [?f1, ?f2]\<rparr>) \<in> set (handleSmartJoin (Some scenarioA))"
    by code_simp
  note w = auto_connector_edges [of "existingFlows scenarioA" "sortedNodes scenarioA" scenarioA]
  from w mem have "\<exists>i. Suc i < length (sortedNodes scenarioA)
        \<and> flow_from ?f1 = comp_id (sortedNodes scenarioA ! i)
        \<and> flow_to ?f1 = comp_id (sortedNodes scenarioA ! Suc i)
        \<and> flow_name ?f1 = ''main'' \<and> flow_type ?f1 = ''flow''
        \<and> getComponentCategory (sortedNodes scenarioA ! Suc i) \<noteq> Some Input
        \<and> getComponentCategory (sortedNodes scenarioA ! i) \<noteq> Some Output
        \<and> (\<forall>g\<in>set (existingFlows scenarioA). \<not> (flow_from g = flow_from ?f1 \<and> flow_to g = flow_to ?f1))"
    by blast
  then have e: "\<exists>i. Suc i < length (sortedNodes scenarioA)
         \<and> comp_id (sortedNodes scenarioA ! i) = ''in_1''
         \<and> comp_id (sortedNodes scenarioA ! Suc i) = ''map_2''
         \<and> getComponentCategory (sortedNodes scenarioA ! Suc i) \<noteq> Some Input
         \<and> getComponentCategory (sortedNodes scenarioA ! i) \<noteq> Some Output"
    by auto
  from w up have "handleSmartJoin (Some scenarioA) =
      [UpdateJob (scenarioA\<lparr>flows := Some (existingFlows scenarioA
          @ createFlows (existingFlows scenarioA) (sortedNodes scenarioA))\<rparr>)]"
    by blast
  moreover from cf ex have "createFlows [] (sortedNodes scenarioA) = [?f1, ?f2]"
    by simp
  ultimately have h: "handleSmartJoin (Some scenarioA) = [UpdateJob (scenarioA\<lparr>flows := Some [?f1, ?f2]\<rparr>)]"
    by (simp add: ex)
  from cf e h show ?thesis by blast
qed

lemma mset_category_partition:
  "mset (nodesOfCategory Input cs) + mset (nodesOfCategory Transform cs)
     + mset (nodesOfCategory Output cs) = mset (filter (\<lambda>n. getComponentCategory n \<noteq> None) cs)"
proof (induction cs)
  case Nil
  then show ?case by (simp add: nodesOfCategory_def)
next
  case (Cons c cs)
  then show ?case
    by (cases "getComponentCategory c" rule: categoryPriority.cases)
      (simp_all add: nodesOfCategory_def)
qed

lemma single_output_sortedNodes:
  assumes "nodesOfCategory Output (availableNodes j) = [z]"
  shows "nodesOfCategory Output (sortedNodes j) = [z]"
proof -
  have "mset (nodesOfCategory Output (sortedNodes j)) = mset (nodesOfCategory Output (availableNodes j))"
    by (simp add: nodesOfCategory_def sortedNodes_def mset_sortNodes)
  with assms show ?thesis by simp
qed

lemma finalOutput_initial:
  "finalOutput (initialGuidedJoinData cs) =
     (case nodesOfCategory Output cs of [node] \<Rightarrow> Some (comp_id node) | _ \<Rightarrow> None)"
  by (simp add: initialGuidedJoinData_def)

lemma guided_mode_condition:
  "(handleSmartJoin (Some j) =
        [SetGuidedJoinData (initialGuidedJoinData (sortedNodes j)),
         SetSmartJoinWarning ambiguousWarning, SetShowSmartJoinModal True]
      \<longleftrightarrow> isAmbiguous (availableNodes j))
   \<and> ((\<exists>g. SetGuidedJoinData g \<in> set (handleSmartJoin (Some j)))
      \<longleftrightarrow> isAmbiguous (availableNodes j))
   \<and> (SetSmartJoinWarning ambiguousWarning \<in> set (handleSmartJoin (Some j))
      \<longleftrightarrow> isAmbiguous (availableNodes j))
   \<and> (isAmbiguous (availableNodes j) \<longleftrightarrow>
        length (availableNodes j) > 5
        \<or> length (filter (\<lambda>n. getComponentCategory n = Some Input) (availableNodes j)) > 1
        \<or> length (filter (\<lambda>n. getComponentCategory n = Some Output) (availableNodes j)) > 1)
   \<and> (isAmbiguous (availableNodes j) \<longrightarrow>
        (\<forall>j'. UpdateJob j' \<notin> set (handleSmartJoin (Some j))
            \<and> LoadJob j' \<notin> set (handleSmartJoin (Some j))))
   \<and> inputNodes (initialGuidedJoinData (sortedNodes j))
        = filter (\<lambda>n. getComponentCategory n = Some Input) (sortedNodes j)
   \<and> transformNodes (initialGuidedJoinData (sortedNodes j))
        = filter (\<lambda>n. getComponentCategory n = Some Transform) (sortedNodes j)
   \<and> outputNodes (initialGuidedJoinData (sortedNodes j))
        = filter (\<lambda>n. getComponentCategory n = Some Output) (sortedNodes j)
   \<and> mset (inputNodes (initialGuidedJoinData (sortedNodes j)))
        + mset (transformNodes (initialGuidedJoinData (sortedNodes j)))
        + mset (outputNodes (initialGuidedJoinData (sortedNodes j)))
       = mset (filter (\<lambda>n. getComponentCategory n \<noteq> None) (availableNodes j))
   \<and> (\<forall>z. filter (\<lambda>n. getComponentCategory n = Some Output) (availableNodes j) = [z] \<longrightarrow>
        finalOutput (initialGuidedJoinData (sortedNodes j)) = Some (comp_id z))
   \<and> (length (filter (\<lambda>n. getComponentCategory n = Some Output) (availableNodes j)) \<noteq> 1 \<longrightarrow>
        finalOutput (initialGuidedJoinData (sortedNodes j)) = None)"
proof -
  have amb2: "isAmbiguous (availableNodes j) \<Longrightarrow> \<not> length (availableNodes j) < 2"
  proof
    assume a: "isAmbiguous (availableNodes j)" and l: "length (availableNodes j) < 2"
    have "length (nodesOfCategory Input (availableNodes j)) \<le> length (availableNodes j)"
      "length (nodesOfCategory Output (availableNodes j)) \<le> length (availableNodes j)"
      by (simp_all add: nodesOfCategory_def)
    with a l show False by (simp add: isAmbiguous_def)
  qed
  have amb_ne: "isAmbiguous (availableNodes j) \<Longrightarrow> components j \<noteq> []"
    using amb2 by (auto simp: availableNodes_def)
  have eff: "isAmbiguous (availableNodes j) \<Longrightarrow> handleSmartJoin (Some j) =
        [SetGuidedJoinData (initialGuidedJoinData (sortedNodes j)),
         SetSmartJoinWarning ambiguousWarning, SetShowSmartJoinModal True]"
    using amb2 amb_ne by (simp add: handleSmartJoin_Some)
  have neff: "\<not> isAmbiguous (availableNodes j) \<Longrightarrow>
      (\<forall>g. SetGuidedJoinData g \<notin> set (handleSmartJoin (Some j)))
      \<and> SetSmartJoinWarning ambiguousWarning \<notin> set (handleSmartJoin (Some j))"
    using warnings_distinct(1) by (auto simp: handleSmartJoin_Some)
  have c1: "handleSmartJoin (Some j) =
        [SetGuidedJoinData (initialGuidedJoinData (sortedNodes j)),
         SetSmartJoinWarning ambiguousWarning, SetShowSmartJoinModal True]
      \<longleftrightarrow> isAmbiguous (availableNodes j)"
    using eff neff by (cases "isAmbiguous (availableNodes j)") auto
  have c2: "(\<exists>g. SetGuidedJoinData g \<in> set (handleSmartJoin (Some j)))
      \<longleftrightarrow> isAmbiguous (availableNodes j)"
    using eff neff by (cases "isAmbiguous (availableNodes j)") auto
  have c3: "SetSmartJoinWarning ambiguousWarning \<in> set (handleSmartJoin (Some j))
      \<longleftrightarrow> isAmbiguous (availableNodes j)"
    using eff neff by (cases "isAmbiguous (availableNodes j)") auto
  have c4: "isAmbiguous (availableNodes j) \<longleftrightarrow>
        length (availableNodes j) > 5
        \<or> length (filter (\<lambda>n. getComponentCategory n = Some Input) (availableNodes j)) > 1
        \<or> length (filter (\<lambda>n. getComponentCategory n = Some Output) (availableNodes j)) > 1"
    by (simp add: isAmbiguous_def nodesOfCategory_def)
  have c5: "isAmbiguous (availableNodes j) \<longrightarrow>
        (\<forall>j'. UpdateJob j' \<notin> set (handleSmartJoin (Some j))
            \<and> LoadJob j' \<notin> set (handleSmartJoin (Some j)))"
    using eff by auto
  have c6: "inputNodes (initialGuidedJoinData (sortedNodes j))
        = filter (\<lambda>n. getComponentCategory n = Some Input) (sortedNodes j)"
    "transformNodes (initialGuidedJoinData (sortedNodes j))
        = filter (\<lambda>n. getComponentCategory n = Some Transform) (sortedNodes j)"
    "outputNodes (initialGuidedJoinData (sortedNodes j))
        = filter (\<lambda>n. getComponentCategory n = Some Output) (sortedNodes j)"
    by (simp_all add: initialGuidedJoinData_def nodesOfCategory_def)
  have c7: "mset (inputNodes (initialGuidedJoinData (sortedNodes j)))
        + mset (transformNodes (initialGuidedJoinData (sortedNodes j)))
        + mset (outputNodes (initialGuidedJoinData (sortedNodes j)))
       = mset (filter (\<lambda>n. getComponentCategory n \<noteq> None) (availableNodes j))"
    using mset_category_partition [of "sortedNodes j"]
    by (simp add: initialGuidedJoinData_def sortedNodes_def mset_sortNodes)
  have c8: "\<forall>z. filter (\<lambda>n. getComponentCategory n = Some Output) (availableNodes j) = [z] \<longrightarrow>
        finalOutput (initialGuidedJoinData (sortedNodes j)) = Some (comp_id z)"
    using single_output_sortedNodes [of j]
    by (simp add: finalOutput_initial nodesOfCategory_def)
  have c9: "length (filter (\<lambda>n. getComponentCategory n = Some Output) (availableNodes j)) \<noteq> 1 \<longrightarrow>
        finalOutput (initialGuidedJoinData (sortedNodes j)) = None"
  proof
    assume "length (filter (\<lambda>n. getComponentCategory n = Some Output) (availableNodes j)) \<noteq> 1"
    then have "length (nodesOfCategory Output (availableNodes j)) \<noteq> 1"
      by (simp add: nodesOfCategory_def)
    then have "length (nodesOfCategory Output (sortedNodes j)) \<noteq> 1"
      by (simp add: length_nodesOfCategory_sortedNodes)
    then show "finalOutput (initialGuidedJoinData (sortedNodes j)) = None"
      by (auto simp: finalOutput_initial split: list.splits)
  qed
  from c1 c2 c3 c4 c5 c6 c7 c8 c9 show ?thesis by blast
qed

lemma guided_mode_scenarioC:
  "isAmbiguous (availableNodes scenarioC)
   \<and> handleSmartJoin (Some scenarioC) =
       [SetGuidedJoinData (initialGuidedJoinData (sortedNodes scenarioC)),
        SetSmartJoinWarning ambiguousWarning, SetShowSmartJoinModal True]
   \<and> map comp_id (inputNodes (initialGuidedJoinData (sortedNodes scenarioC))) = [''in_1'', ''in_2'']
   \<and> finalOutput (initialGuidedJoinData (sortedNodes scenarioC)) = Some ''out_3''
   \<and> isAmbiguous (availableNodes twoOutputs)
   \<and> finalOutput (initialGuidedJoinData (sortedNodes twoOutputs)) = None"
proof -
  have amb: "isAmbiguous (availableNodes scenarioC)" by code_simp
  have outs: "filter (\<lambda>n. getComponentCategory n = Some Output) (availableNodes scenarioC)
      = [exampleNode ''out_3'' ''tFileOutputDelimited'' 0 0]"
    by code_simp
  have ins: "map comp_id (filter (\<lambda>n. getComponentCategory n = Some Input) (sortedNodes scenarioC))
      = [''in_1'', ''in_2'']"
    by code_simp
  have amb2: "isAmbiguous (availableNodes twoOutputs)" by code_simp
  have outs2: "length (filter (\<lambda>n. getComponentCategory n = Some Output) (availableNodes twoOutputs)) \<noteq> 1"
    by code_simp
  have id3: "comp_id (exampleNode ''out_3'' ''tFileOutputDelimited'' 0 0) = ''out_3''"
    by (simp add: exampleNode_def)
  from guided_mode_condition [of scenarioC] amb outs ins id3
  have a: "handleSmartJoin (Some scenarioC) =
       [SetGuidedJoinData (initialGuidedJoinData (sortedNodes scenarioC)),
        SetSmartJoinWarning ambiguousWarning, SetShowSmartJoinModal True]"
    and b: "map comp_id (inputNodes (initialGuidedJoinData (sortedNodes scenarioC))) = [''in_1'', ''in_2'']"
    and c: "finalOutput (initialGuidedJoinData (sortedNodes scenarioC)) = Some ''out_3''"
    by simp_all
  from guided_mode_condition [of twoOutputs] outs2
  have d: "finalOutput (initialGuidedJoinData (sortedNodes twoOutputs)) = None"
    by blast
  from amb a b c amb2 d show ?thesis by blast
qed

text \<open>
  Claim C1. The claim has the guided-join data hold the Input, Transform and Output
  candidates as a partition of all candidates. A candidate whose type key is the name
  of an inherited member of the registry literal has no category; it is a candidate, the
  job below enters guided mode on its two Input candidates, and the stored lists leave
  that candidate out.
\<close>

theorem guided_partition_drops_inherited_key:
  "availableNodes inheritedKeyJob =
     [exampleNode ''in_1'' ''tFileInputDelimited'' 0 0, exampleNode ''in_2'' ''tOracleInput'' 0 0,
      exampleNode ''n_3'' ''constructor'' 0 0]
   \<and> componentType (exampleNode ''n_3'' ''constructor'' 0 0) = ''constructor''
   \<and> getComponentCategory (exampleNode ''n_3'' ''constructor'' 0 0) = None
   \<and> handleSmartJoin (Some inheritedKeyJob) =
       [SetGuidedJoinData
          \<lparr>inputNodes = [exampleNode ''in_1'' ''tFileInputDelimited'' 0 0,
                         exampleNode ''in_2'' ''tOracleInput'' 0 0],
           transformNodes = [],
           outputNodes = [],
           inputMappings = [],
           fanInSelection = \<lparr>upstreamTransforms = [], downstreamTransform = None\<rparr>,
           finalOutput = None\<rparr>,
        SetSmartJoinWarning ambiguousWarning,
        SetShowSmartJoinModal True]"
  by code_simp

text \<open>
  Claim C6, as the code has it. Whenever the candidates are fewer than two, or they are
  not ambiguous and do not hold exactly one Input and exactly one Output node, Smart Join
  commits nothing and the job stays as it was. When the job has components and fewer
  than two candidates, the handler sets the warning that two unconnected components are
  required and shows the dialog. A job with no components makes the handler return at
  its first guard, with no call at all.
\<close>

theorem smart_join_abort_keeps_graph:
  "(length (availableNodes j) < 2
      \<or> (\<not> isAmbiguous (availableNodes j)
          \<and> \<not> (length (nodesOfCategory Input (availableNodes j)) = 1
                \<and> length (nodesOfCategory Output (availableNodes j)) = 1))
     \<longrightarrow> (\<forall>j'. UpdateJob j' \<notin> set (handleSmartJoin (Some j))
              \<and> LoadJob j' \<notin> set (handleSmartJoin (Some j)))
         \<and> (currentJob s = Some j \<longrightarrow> currentJob (smartJoinEvent s) = Some j))
   \<and> (components j \<noteq> [] \<and> length (availableNodes j) < 2 \<longrightarrow>
        handleSmartJoin (Some j) =
          [SetSmartJoinWarning insufficientWarning, SetShowSmartJoinModal True])
   \<and> (components j = [] \<longrightarrow> handleSmartJoin (Some j) = [])"
proof (intro conjI impI)
  assume h: "length (availableNodes j) < 2
      \<or> (\<not> isAmbiguous (availableNodes j)
          \<and> \<not> (length (nodesOfCategory Input (availableNodes j)) = 1
                \<and> length (nodesOfCategory Output (availableNodes j)) = 1))"
  then have none: "\<forall>j'. UpdateJob j' \<notin> set (handleSmartJoin (Some j))"
    by (auto simp: handleSmartJoin_Some)
  with no_LoadJob show "\<forall>j'. UpdateJob j' \<notin> set (handleSmartJoin (Some j))
              \<and> LoadJob j' \<notin> set (handleSmartJoin (Some j))"
    by blast
  assume "currentJob s = Some j"
  with none show "currentJob (smartJoinEvent s) = Some j"
    using smartJoinEvent_job [of s] by auto
next
  assume "components j \<noteq> [] \<and> length (availableNodes j) < 2"
  then show "handleSmartJoin (Some j) =
      [SetSmartJoinWarning insufficientWarning, SetShowSmartJoinModal True]"
    by (simp add: handleSmartJoin_Some)
next
  assume "components j = []"
  then show "handleSmartJoin (Some j) = []" by (simp add: handleSmartJoin_Some)
qed

theorem smart_join_abort_keeps_graph_witness:
  "length (availableNodes scenarioD) < 2
   \<and> handleSmartJoin (Some scenarioD) =
       [SetSmartJoinWarning insufficientWarning, SetShowSmartJoinModal True]
   \<and> currentJob (smartJoinEvent (exampleCanvas scenarioD)) = Some scenarioD
   \<and> \<not> isAmbiguous (availableNodes transformOnly)
   \<and> length (nodesOfCategory Input (availableNodes transformOnly)) \<noteq> 1
   \<and> currentJob (smartJoinEvent (exampleCanvas transformOnly)) = Some transformOnly
   \<and> handleSmartJoin (Some emptyJob) = []"
proof -
  have d: "length (availableNodes scenarioD) < 2" "components scenarioD \<noteq> []"
    by code_simp+
  have t: "\<not> isAmbiguous (availableNodes transformOnly)"
    "length (nodesOfCategory Input (availableNodes transformOnly)) \<noteq> 1"
    by code_simp+
  have e: "components emptyJob = []" by code_simp
  have c: "currentJob (exampleCanvas scenarioD) = Some scenarioD"
    "currentJob (exampleCanvas transformOnly) = Some transformOnly"
    by (simp_all add: exampleCanvas_def)
  from smart_join_abort_keeps_graph [of scenarioD "exampleCanvas scenarioD"] d c(1)
  have 1: "handleSmartJoin (Some scenarioD) =
       [SetSmartJoinWarning insufficientWarning, SetShowSmartJoinModal True]"
    and 2: "currentJob (smartJoinEvent (exampleCanvas scenarioD)) = Some scenarioD"
    by blast+
  from smart_join_abort_keeps_graph [of transformOnly "exampleCanvas transformOnly"] t c(2)
  have 3: "currentJob (smartJoinEvent (exampleCanvas transformOnly)) = Some transformOnly"
    by blast
  from smart_join_abort_keeps_graph [of emptyJob] e
  have 4: "handleSmartJoin (Some emptyJob) = []" by blast
  from d(1) 1 2 t 3 4 show ?thesis by blast
qed

text \<open>
  The claim as written asks for a warning on every such abort. The empty job and a job
  of two Transform nodes both end with no setter called.
\<close>

theorem smart_join_silent_abort_counterexample:
  "length (availableNodes emptyJob) < 2
   \<and> handleSmartJoin (Some emptyJob) = []
   \<and> \<not> isAmbiguous (availableNodes transformOnly)
   \<and> nodesOfCategory Input (availableNodes transformOnly) = []
   \<and> nodesOfCategory Output (availableNodes transformOnly) = []
   \<and> handleSmartJoin (Some transformOnly) = []"
  by code_simp

text \<open>
  Claim C3, as the code has it. A second run of Smart Join right after a first run
  leaves the job of the first run as it is and commits nothing. After a first run that
  committed flows, at most one candidate is left, so the second run sets the warning that
  two unconnected components are required; after a first run that committed nothing, the
  second run repeats the first. The warning that no new connections could be created is
  never set.
\<close>

theorem smart_join_second_run:
  "currentJob (smartJoinEvent (smartJoinEvent s)) = currentJob (smartJoinEvent s)
   \<and> (\<forall>j'. UpdateJob j' \<notin> set (handleSmartJoin (currentJob (smartJoinEvent s))))
   \<and> ((\<exists>j'. UpdateJob j' \<in> set (handleSmartJoin (currentJob s))) \<longrightarrow>
        handleSmartJoin (currentJob (smartJoinEvent s)) =
          [SetSmartJoinWarning insufficientWarning, SetShowSmartJoinModal True])
   \<and> ((\<forall>j'. UpdateJob j' \<notin> set (handleSmartJoin (currentJob s))) \<longrightarrow>
        handleSmartJoin (currentJob (smartJoinEvent s)) = handleSmartJoin (currentJob s))
   \<and> SetSmartJoinWarning noNewConnectionsWarning
        \<notin> set (handleSmartJoin (currentJob (smartJoinEvent s)))"
proof -
  have second: "(\<exists>j'. UpdateJob j' \<in> set (handleSmartJoin (currentJob s))) \<Longrightarrow>
      handleSmartJoin (currentJob (smartJoinEvent s)) =
          [SetSmartJoinWarning insufficientWarning, SetShowSmartJoinModal True]"
  proof -
    assume "\<exists>j'. UpdateJob j' \<in> set (handleSmartJoin (currentJob s))"
    then obtain j' where j': "UpdateJob j' \<in> set (handleSmartJoin (currentJob s))" ..
    then obtain j where j: "currentJob s = Some j"
      by (cases "currentJob s") (simp_all add: handleSmartJoin_None)
    from j j' have m: "UpdateJob j' \<in> set (handleSmartJoin (Some j))" by simp
    from commit_shape(1) [OF m] j have "currentJob (smartJoinEvent s) = Some j'"
      by (simp add: smartJoinEvent_def applyEffects_def)
    with second_run_insufficient [OF m] show ?thesis by simp
  qed
  have same: "(\<forall>j'. UpdateJob j' \<notin> set (handleSmartJoin (currentJob s))) \<Longrightarrow>
      currentJob (smartJoinEvent s) = currentJob s"
    using smartJoinEvent_job [of s] by auto
  have nocommit: "\<forall>j'. UpdateJob j' \<notin> set (handleSmartJoin (currentJob (smartJoinEvent s)))"
  proof (cases "\<exists>j'. UpdateJob j' \<in> set (handleSmartJoin (currentJob s))")
    case True
    from second [OF this] show ?thesis by simp
  next
    case False
    with same show ?thesis by simp
  qed
  have idem: "currentJob (smartJoinEvent (smartJoinEvent s)) = currentJob (smartJoinEvent s)"
    using smartJoinEvent_job [of "smartJoinEvent s"] nocommit by auto
  from idem nocommit second same no_new_connections_unreachable show ?thesis
    by (metis (no_types, lifting))
qed

theorem smart_join_second_run_witness:
  "UpdateJob (scenarioA\<lparr>flows := Some
       [\<lparr>flow_name = ''main'', flow_from = ''in_1'', flow_to = ''map_2'', flow_type = ''flow''\<rparr>,
        \<lparr>flow_name = ''main'', flow_from = ''map_2'', flow_to = ''out_3'', flow_type = ''flow''\<rparr>]\<rparr>)
     \<in> set (handleSmartJoin (currentJob (exampleCanvas scenarioA)))
   \<and> handleSmartJoin (currentJob (smartJoinEvent (exampleCanvas scenarioA))) =
       [SetSmartJoinWarning insufficientWarning, SetShowSmartJoinModal True]
   \<and> currentJob (smartJoinEvent (smartJoinEvent (exampleCanvas scenarioA)))
       = currentJob (smartJoinEvent (exampleCanvas scenarioA))
   \<and> (\<forall>j'. UpdateJob j' \<notin> set (handleSmartJoin (currentJob (exampleCanvas scenarioD))))
   \<and> handleSmartJoin (currentJob (smartJoinEvent (exampleCanvas scenarioD)))
       = handleSmartJoin (currentJob (exampleCanvas scenarioD))"
proof -
  have up: "UpdateJob (scenarioA\<lparr>flows := Some
       [\<lparr>flow_name = ''main'', flow_from = ''in_1'', flow_to = ''map_2'', flow_type = ''flow''\<rparr>,
        \<lparr>flow_name = ''main'', flow_from = ''map_2'', flow_to = ''out_3'', flow_type = ''flow''\<rparr>]\<rparr>)
     \<in> set (handleSmartJoin (currentJob (exampleCanvas scenarioA)))"
    by code_simp
  have d: "handleSmartJoin (currentJob (exampleCanvas scenarioD)) =
      [SetSmartJoinWarning insufficientWarning, SetShowSmartJoinModal True]"
    by code_simp
  then have nd: "\<forall>j'. UpdateJob j' \<notin> set (handleSmartJoin (currentJob (exampleCanvas scenarioD)))"
    by simp
  note a = smart_join_second_run [of "exampleCanvas scenarioA"]
  note b = smart_join_second_run [of "exampleCanvas scenarioD"]
  from a up have 1: "handleSmartJoin (currentJob (smartJoinEvent (exampleCanvas scenarioA))) =
       [SetSmartJoinWarning insufficientWarning, SetShowSmartJoinModal True]"
    by blast
  from a have 2: "currentJob (smartJoinEvent (smartJoinEvent (exampleCanvas scenarioA)))
       = currentJob (smartJoinEvent (exampleCanvas scenarioA))"
    by blast
  from b nd have 3: "handleSmartJoin (currentJob (smartJoinEvent (exampleCanvas scenarioD)))
       = handleSmartJoin (currentJob (exampleCanvas scenarioD))"
    by blast
  from up 1 2 nd 3 show ?thesis by blast
qed

text \<open>
  On scenario A the second run does not report that no new connections could be created.
\<close>

theorem smart_join_second_run_counterexample:
  "handleSmartJoin (currentJob (smartJoinEvent (exampleCanvas scenarioA)))
     = [SetSmartJoinWarning insufficientWarning, SetShowSmartJoinModal True]
   \<and> handleSmartJoin (currentJob (smartJoinEvent (exampleCanvas scenarioA)))
     \<noteq> [SetSmartJoinWarning noNewConnectionsWarning, SetShowSmartJoinModal True]"
  by code_simp

lemma not_isDigit_underscore: "\<not> isDigit (CHR ''_'')"
  by (simp add: isDigit_def)

lemma toDouble_exact: "n < 2 ^ 53 \<Longrightarrow> toDouble n = enat (nat n)"
  by (simp add: toDouble_def)

lemma getNumericSuffix_match:
  assumes "ds \<noteq> []" and "\<forall>d\<in>set ds. isDigit d"
  shows "getNumericSuffix (p @ CHR ''_'' # ds) = toDouble (parseInt10 ds)"
proof -
  have r: "rev (p @ CHR ''_'' # ds) = rev ds @ CHR ''_'' # rev p" by simp
  have all: "\<And>c. c \<in> set (rev ds) \<Longrightarrow> isDigit c" using assms(2) by simp
  have t: "takeWhile isDigit (rev ds @ CHR ''_'' # rev p) = rev ds"
    using takeWhile_append2 [of "rev ds" isDigit "CHR ''_'' # rev p", OF all]
    by (simp add: not_isDigit_underscore)
  have d: "dropWhile isDigit (rev ds @ CHR ''_'' # rev p) = CHR ''_'' # rev p"
    using dropWhile_append2 [of "rev ds" isDigit "CHR ''_'' # rev p", OF all]
    by (simp add: not_isDigit_underscore)
  show ?thesis
    unfolding getNumericSuffix_def r Let_def t d using assms(1) by simp
qed

lemma getNumericSuffix_no_match:
  assumes "\<not> (\<exists>p ds. s = p @ CHR ''_'' # ds \<and> ds \<noteq> [] \<and> (\<forall>d\<in>set ds. isDigit d))"
  shows "getNumericSuffix s = 0"
proof (rule ccontr)
  assume nz: "getNumericSuffix s \<noteq> 0"
  let ?ds = "takeWhile isDigit (rev s)"
  from nz obtain rest where dw: "dropWhile isDigit (rev s) = CHR ''_'' # rest" and ne: "?ds \<noteq> []"
    by (auto simp: getNumericSuffix_def Let_def split: list.splits if_splits)
  have "rev s = ?ds @ CHR ''_'' # rest"
    using takeWhile_dropWhile_id [of isDigit "rev s"] dw by simp
  then have "s = rev rest @ CHR ''_'' # rev ?ds"
    by (metis rev_append rev.simps(2) rev_rev_ident append_Cons append_Nil append_assoc)
  moreover have "\<forall>d\<in>set (rev ?ds). isDigit d"
    by (auto dest: set_takeWhileD)
  moreover have "rev ?ds \<noteq> []" using ne by simp
  ultimately show False using assms by blast
qed

lemma sortedNodes_stable:
  "filter (\<lambda>c. categoryPriority (getComponentCategory c) = k \<and> getNumericSuffix (comp_id c) = n)
     (sortedNodes j)
   = filter (\<lambda>c. categoryPriority (getComponentCategory c) = k \<and> getNumericSuffix (comp_id c) = n)
       (availableNodes j)"
proof -
  have "(\<lambda>c. categoryPriority (getComponentCategory c) = k \<and> getNumericSuffix (comp_id c) = n)
      = (\<lambda>c. sortKey c = (k, n))"
    by (auto simp: sortKey_def fun_eq_iff)
  then show ?thesis by (simp add: sortedNodes_def sortNodes_stable)
qed

lemma sortedNodes_ordered:
  assumes "a < b" and "b < length (sortedNodes j)"
  shows "categoryPriority (getComponentCategory (sortedNodes j ! a))
           < categoryPriority (getComponentCategory (sortedNodes j ! b))
       \<or> (categoryPriority (getComponentCategory (sortedNodes j ! a))
            = categoryPriority (getComponentCategory (sortedNodes j ! b))
          \<and> getNumericSuffix (comp_id (sortedNodes j ! a))
              \<le> getNumericSuffix (comp_id (sortedNodes j ! b)))"
proof -
  have "sorted (map sortKey (sortedNodes j))"
    by (simp add: sortedNodes_def sorted_sortNodes)
  with assms have "map sortKey (sortedNodes j) ! a \<le> map sortKey (sortedNodes j) ! b"
    by (simp add: sorted_iff_nth_mono_less del: nth_map)
  with assms have "sortKey (sortedNodes j ! a) \<le> sortKey (sortedNodes j ! b)"
    by simp
  then show ?thesis
    by (auto simp: sortKey_def less_eq_prod_def)
qed

lemma sortedNodes_priority_position:
  assumes "a < length (sortedNodes j)" and "b < length (sortedNodes j)"
    and "categoryPriority (getComponentCategory (sortedNodes j ! a))
           < categoryPriority (getComponentCategory (sortedNodes j ! b))"
  shows "a < b"
proof (rule ccontr)
  assume "\<not> a < b"
  then consider "a = b" | "b < a" by linarith
  then show False
  proof cases
    case 1
    with assms(3) show False by simp
  next
    case 2
    from sortedNodes_ordered [OF 2 assms(1)] assms(3) show False by auto
  qed
qed

lemma candidates_are_nodes_without_outgoing:
  "availableNodes j
   = filter (\<lambda>c. \<not> (\<exists>f\<in>set (existingFlows j). flow_from f = comp_id c)) (components j)"
  unfolding availableNodes_def componentsWithOutgoing_def
  by (rule filter_cong) (auto simp: image_def)

lemma suffix_n:
  "getNumericSuffix ''n_1'' = enat 1" "getNumericSuffix ''n_2'' = enat 2"
  "getNumericSuffix ''n_3'' = enat 3"
  by (simp_all add: getNumericSuffix_def isDigit_def parseInt10_def digitValue_def toDouble_def)

lemma sort_n3_n1_n2:
  assumes "comp_id a = ''n_3''" "comp_id b = ''n_1''" "comp_id c = ''n_2''"
    and "getComponentCategory a = getComponentCategory b"
    and "getComponentCategory b = getComponentCategory c"
  shows "sortNodes [a, b, c] = [b, c, a]"
  using assms by (simp add: sortNodes_def compareNodes_def differenceSign_def suffix_n)

text \<open>
  Claim C4, as the code has it. The candidates are exactly the components that are the
  source of no flow. They are ordered by category priority (Input before Transform
  before Output) and, within a priority, by ascending numeric suffix as \<^verbatim>\<open>parseInt\<close>
  returns it: the suffix is the double for the digits after a final underscore, which
  is the number they denote when that is below \<open>2 ^ 53\<close>, and 0 when the id does not end
  that way. Candidates with equal keys keep their original relative order. Three
  candidates \<^verbatim>\<open>n_3\<close>, \<^verbatim>\<open>n_1\<close>, \<^verbatim>\<open>n_2\<close> of one category come out as \<^verbatim>\<open>n_1\<close>,
  \<^verbatim>\<open>n_2\<close>, \<^verbatim>\<open>n_3\<close>, and an Input candidate stands before every other candidate, every
  candidate that is not an Output before every Output candidate, whatever the suffixes.
\<close>

theorem candidate_ordering:
  "mset (sortedNodes j)
     = mset (filter (\<lambda>c. \<not> (\<exists>f\<in>set (existingFlows j). flow_from f = comp_id c)) (components j))
   \<and> (a < b \<and> b < length (sortedNodes j) \<longrightarrow>
        categoryPriority (getComponentCategory (sortedNodes j ! a))
           < categoryPriority (getComponentCategory (sortedNodes j ! b))
        \<or> (categoryPriority (getComponentCategory (sortedNodes j ! a))
             = categoryPriority (getComponentCategory (sortedNodes j ! b))
           \<and> getNumericSuffix (comp_id (sortedNodes j ! a))
               \<le> getNumericSuffix (comp_id (sortedNodes j ! b))))
   \<and> categoryPriority (Some Input) < categoryPriority (Some Transform)
   \<and> categoryPriority (Some Transform) < categoryPriority (Some Output)
   \<and> (ds \<noteq> [] \<and> (\<forall>d\<in>set ds. isDigit d) \<and> parseInt10 ds < 2 ^ 53 \<longrightarrow>
        getNumericSuffix (p @ CHR ''_'' # ds) = enat (nat (parseInt10 ds)))
   \<and> (\<not> (\<exists>p ds. s = p @ CHR ''_'' # ds \<and> ds \<noteq> [] \<and> (\<forall>d\<in>set ds. isDigit d)) \<longrightarrow>
        getNumericSuffix s = 0)
   \<and> filter (\<lambda>c. categoryPriority (getComponentCategory c) = k
                 \<and> getNumericSuffix (comp_id c) = n) (sortedNodes j)
       = filter (\<lambda>c. categoryPriority (getComponentCategory c) = k
                     \<and> getNumericSuffix (comp_id c) = n) (availableNodes j)
   \<and> (availableNodes j = [n3, n1, n2]
        \<and> comp_id n3 = ''n_3'' \<and> comp_id n1 = ''n_1'' \<and> comp_id n2 = ''n_2''
        \<and> getComponentCategory n3 = getComponentCategory n1
        \<and> getComponentCategory n1 = getComponentCategory n2 \<longrightarrow>
        sortedNodes j = [n1, n2, n3])
   \<and> (a < length (sortedNodes j) \<and> b < length (sortedNodes j)
        \<and> (getComponentCategory (sortedNodes j ! a) = Some Input
              \<and> getComponentCategory (sortedNodes j ! b) \<noteq> Some Input
            \<or> getComponentCategory (sortedNodes j ! a) \<noteq> Some Output
              \<and> getComponentCategory (sortedNodes j ! b) = Some Output) \<longrightarrow>
        a < b)"
proof -
  have c1: "mset (sortedNodes j)
     = mset (filter (\<lambda>c. \<not> (\<exists>f\<in>set (existingFlows j). flow_from f = comp_id c)) (components j))"
    unfolding candidates_are_nodes_without_outgoing [symmetric]
    by (simp add: sortedNodes_def mset_sortNodes)
  have c2: "a < b \<and> b < length (sortedNodes j) \<longrightarrow>
        categoryPriority (getComponentCategory (sortedNodes j ! a))
           < categoryPriority (getComponentCategory (sortedNodes j ! b))
        \<or> (categoryPriority (getComponentCategory (sortedNodes j ! a))
             = categoryPriority (getComponentCategory (sortedNodes j ! b))
           \<and> getNumericSuffix (comp_id (sortedNodes j ! a))
               \<le> getNumericSuffix (comp_id (sortedNodes j ! b)))"
    using sortedNodes_ordered [of a b j] by blast
  have c3: "categoryPriority (Some Input) < categoryPriority (Some Transform)"
    "categoryPriority (Some Transform) < categoryPriority (Some Output)"
    by simp_all
  have c4': "ds \<noteq> [] \<and> (\<forall>d\<in>set ds. isDigit d) \<and> parseInt10 ds < 2 ^ 53 \<longrightarrow>
        getNumericSuffix (p @ CHR ''_'' # ds) = enat (nat (parseInt10 ds))"
    using getNumericSuffix_match [of ds p] toDouble_exact [of "parseInt10 ds"] by auto
  have c5: "\<not> (\<exists>p ds. s = p @ CHR ''_'' # ds \<and> ds \<noteq> [] \<and> (\<forall>d\<in>set ds. isDigit d)) \<longrightarrow>
        getNumericSuffix s = 0"
    using getNumericSuffix_no_match [of s] by blast
  note c6 = sortedNodes_stable [of k n j]
  have c7: "availableNodes j = [n3, n1, n2]
        \<and> comp_id n3 = ''n_3'' \<and> comp_id n1 = ''n_1'' \<and> comp_id n2 = ''n_2''
        \<and> getComponentCategory n3 = getComponentCategory n1
        \<and> getComponentCategory n1 = getComponentCategory n2 \<longrightarrow>
        sortedNodes j = [n1, n2, n3]"
    using sort_n3_n1_n2 [of n3 n1 n2] by (simp add: sortedNodes_def)
  have c8: "a < length (sortedNodes j) \<and> b < length (sortedNodes j)
        \<and> (getComponentCategory (sortedNodes j ! a) = Some Input
              \<and> getComponentCategory (sortedNodes j ! b) \<noteq> Some Input
            \<or> getComponentCategory (sortedNodes j ! a) \<noteq> Some Output
              \<and> getComponentCategory (sortedNodes j ! b) = Some Output) \<longrightarrow>
        a < b"
  proof
    assume h: "a < length (sortedNodes j) \<and> b < length (sortedNodes j)
        \<and> (getComponentCategory (sortedNodes j ! a) = Some Input
              \<and> getComponentCategory (sortedNodes j ! b) \<noteq> Some Input
            \<or> getComponentCategory (sortedNodes j ! a) \<noteq> Some Output
              \<and> getComponentCategory (sortedNodes j ! b) = Some Output)"
    then have "categoryPriority (getComponentCategory (sortedNodes j ! a))
           < categoryPriority (getComponentCategory (sortedNodes j ! b))"
      by (cases "getComponentCategory (sortedNodes j ! a)" rule: categoryPriority.cases;
          cases "getComponentCategory (sortedNodes j ! b)" rule: categoryPriority.cases) auto
    with h show "a < b" using sortedNodes_priority_position [of a j b] by blast
  qed
  from c1 c2 c3 c4' c5 c6 c7 c8 show ?thesis by blast
qed

theorem candidate_ordering_witness:
  "map comp_id (sortedNodes mixedSuffixes) = [''in_9'', ''map'', ''map_7'', ''out_1'']
   \<and> getNumericSuffix ''map_7'' = enat 7 \<and> getNumericSuffix ''map'' = 0
   \<and> map comp_id (sortedNodes threeOfOneCategory) = [''n_1'', ''n_2'', ''n_3'']
   \<and> getComponentCategory (sortedNodes mixedSuffixes ! 0) = Some Input
   \<and> getComponentCategory (sortedNodes mixedSuffixes ! 1) = Some Transform
   \<and> getComponentCategory (sortedNodes mixedSuffixes ! 3) = Some Output
   \<and> getNumericSuffix (comp_id (sortedNodes mixedSuffixes ! 1))
       \<le> getNumericSuffix (comp_id (sortedNodes mixedSuffixes ! 2))"
proof -
  have av: "availableNodes threeOfOneCategory =
      [exampleNode ''n_3'' ''tMap'' 0 0, exampleNode ''n_1'' ''tJoin'' 0 0,
       exampleNode ''n_2'' ''tUnite'' 0 0]"
    by code_simp
  have ids: "comp_id (exampleNode ''n_3'' ''tMap'' 0 0) = ''n_3''"
    "comp_id (exampleNode ''n_1'' ''tJoin'' 0 0) = ''n_1''"
    "comp_id (exampleNode ''n_2'' ''tUnite'' 0 0) = ''n_2''"
    by (simp_all add: exampleNode_def)
  have cats: "getComponentCategory (exampleNode ''n_3'' ''tMap'' 0 0)
        = getComponentCategory (exampleNode ''n_1'' ''tJoin'' 0 0)"
    "getComponentCategory (exampleNode ''n_1'' ''tJoin'' 0 0)
        = getComponentCategory (exampleNode ''n_2'' ''tUnite'' 0 0)"
    by code_simp+
  have m: "map comp_id (sortedNodes mixedSuffixes) = [''in_9'', ''map'', ''map_7'', ''out_1'']"
    by code_simp
  have len: "(1::nat) < 2 \<and> 2 < length (sortedNodes mixedSuffixes)"
    by code_simp
  have digits: "''7'' \<noteq> [] \<and> (\<forall>d\<in>set ''7''. isDigit d) \<and> parseInt10 ''7'' < 2 ^ 53"
    by (simp add: isDigit_def parseInt10_def digitValue_def)
  have nomatch: "\<not> (\<exists>p ds. ''map'' = p @ CHR ''_'' # ds \<and> ds \<noteq> [] \<and> (\<forall>d\<in>set ds. isDigit d))"
  proof
    assume "\<exists>p ds. ''map'' = p @ CHR ''_'' # ds \<and> ds \<noteq> [] \<and> (\<forall>d\<in>set ds. isDigit d)"
    then obtain p ds where "''map'' = p @ CHR ''_'' # ds" by blast
    then have "CHR ''_'' \<in> set ''map''" by (metis in_set_conv_decomp)
    then show False by simp
  qed
  have c0: "getComponentCategory (sortedNodes mixedSuffixes ! 0) = Some Input"
    and c1: "getComponentCategory (sortedNodes mixedSuffixes ! 1) = Some Transform"
    and c3: "getComponentCategory (sortedNodes mixedSuffixes ! 3) = Some Output"
    by code_simp+
  note w = candidate_ordering [of threeOfOneCategory 1 2 "''7''" "''map''" "''map''" 2 0
      "exampleNode ''n_3'' ''tMap'' 0 0" "exampleNode ''n_1'' ''tJoin'' 0 0"
      "exampleNode ''n_2'' ''tUnite'' 0 0"]
  from w av ids cats have s3: "sortedNodes threeOfOneCategory =
      [exampleNode ''n_1'' ''tJoin'' 0 0, exampleNode ''n_2'' ''tUnite'' 0 0,
       exampleNode ''n_3'' ''tMap'' 0 0]"
    by blast
  then have t: "map comp_id (sortedNodes threeOfOneCategory) = [''n_1'', ''n_2'', ''n_3'']"
    by (simp add: ids)
  from w digits have "getNumericSuffix (''map'' @ CHR ''_'' # ''7'') = enat (nat (parseInt10 ''7''))"
    by blast
  then have s7: "getNumericSuffix ''map_7'' = enat 7"
    by (simp add: parseInt10_def digitValue_def)
  from w nomatch have s0: "getNumericSuffix ''map'' = 0" by blast
  have c2: "getComponentCategory (sortedNodes mixedSuffixes ! 2) = Some Transform"
    by code_simp
  note w2 = candidate_ordering [of mixedSuffixes 1 2]
  from w2 len c1 c2 have o: "getNumericSuffix (comp_id (sortedNodes mixedSuffixes ! 1))
       \<le> getNumericSuffix (comp_id (sortedNodes mixedSuffixes ! 2))"
    by auto
  from m s7 s0 t c0 c1 c3 o show ?thesis by blast
qed

text \<open>
  The claim as written orders by the number in the id. Two candidates of one category
  whose suffixes \<open>9007199254740993\<close> and \<open>9007199254740992\<close> parse to the same double
  keep their stored order, the larger number first.
\<close>

theorem equal_doubles_keep_order_counterexample:
  "map comp_id (sortedNodes bigSuffixes) = [''t_9007199254740993'', ''t_9007199254740992'']
   \<and> getComponentCategory (sortedNodes bigSuffixes ! 0)
       = getComponentCategory (sortedNodes bigSuffixes ! 1)
   \<and> parseInt10 ''9007199254740992'' = 9007199254740992
   \<and> parseInt10 ''9007199254740993'' = 9007199254740993
   \<and> getNumericSuffix ''t_9007199254740993'' = enat 9007199254740992
   \<and> getNumericSuffix ''t_9007199254740992'' = enat 9007199254740992"
proof -
  have p: "parseInt10 ''9007199254740992'' = 9007199254740992"
    "parseInt10 ''9007199254740993'' = 9007199254740993"
    by (simp_all add: parseInt10_def digitValue_def)
  have big: "getNumericSuffix ''t_9007199254740993'' = enat 9007199254740992"
    "getNumericSuffix ''t_9007199254740992'' = enat 9007199254740992"
    by (simp_all add: getNumericSuffix_def isDigit_def parseInt10_def digitValue_def
        toDouble_def doubleExponent.simps Let_def)
  have cat: "\<And>i. getComponentCategory (exampleNode i ''tMap'' 0 0) = Some Transform"
    by (simp add: getComponentCategory_def componentType_def exampleNode_def orDefault_def
        orElse_def truthy_def toLowerCase_def toLowerChar_def stripLeading_t_def
        categoryRegistry_def objectLookup_def)
  have ids: "\<And>i. comp_id (exampleNode i ''tMap'' 0 0) = i"
    by (simp add: exampleNode_def)
  have av: "availableNodes bigSuffixes =
     [exampleNode ''t_9007199254740993'' ''tMap'' 0 0,
      exampleNode ''t_9007199254740992'' ''tMap'' 0 0]"
    by (simp add: availableNodes_def bigSuffixes_def exampleJob_def componentsWithOutgoing_def
        existingFlows_def)
  have s: "sortedNodes bigSuffixes =
     [exampleNode ''t_9007199254740993'' ''tMap'' 0 0,
      exampleNode ''t_9007199254740992'' ''tMap'' 0 0]"
    by (simp add: sortedNodes_def av sortNodes_def compareNodes_def cat ids big
        differenceSign_def)
  from p big show ?thesis by (simp add: s cat ids)
qed

section \<open>Properties of classification, manual connection and deletion\<close>

lemma same_classification_for_both_spellings:
  "getComponentCategory (c\<lparr>original_type := Some ''tFileInputDelimited''\<rparr>) = Some Input"
  "getComponentCategory (c\<lparr>original_type := Some ''fileinputdelimited''\<rparr>) = Some Input"
  "getComponentRegistryInfo (c\<lparr>original_type := Some ''tFileInputDelimited''\<rparr>)
     = Ports defaultPorts"
  "getComponentRegistryInfo (c\<lparr>original_type := Some ''fileinputdelimited''\<rparr>)
     = Ports defaultPorts"
  by (simp_all add: getComponentCategory_def componentType_def getComponentRegistryInfo_def
      componentKey_def orDefault_def orElse_def truthy_def toLowerCase_def toLowerChar_def
      stripLeading_t_def categoryRegistry_def portRegistry_def objectLookup_def
      objectPrototypeKeys_def)

lemma unrecognized_key_defaults:
  "objectLookup categoryRegistry (componentType c) = Missing \<Longrightarrow>
     getComponentCategory c = Some Transform"
  "objectLookup portRegistry (componentKey c) = Missing \<Longrightarrow>
     getComponentRegistryInfo c = Ports defaultPorts"
  by (simp_all add: getComponentCategory_def getComponentRegistryInfo_def)

text \<open>
  Claim C5. The claim gives one normalisation for classification: lower-case, then drop
  one leading \<^verbatim>\<open>t\<close>. The category lookup does that. The port lookup instead removes
  the first \<^verbatim>\<open>t\<close> wherever it stands in \<^verbatim>\<open>original_type\<close>, and removes nothing from
  the fallback \<^verbatim>\<open>type\<close>. For \<^verbatim>\<open>original_type = "oracle_input"\<close> the category key is
  \<^verbatim>\<open>oracle_input\<close> but the port key is \<^verbatim>\<open>oracle_inpu\<close>, so the ports are the default
  and not the registry entry of \<^verbatim>\<open>oracle_input\<close>; for \<^verbatim>\<open>type = "tJoin"\<close> the
  category key is \<^verbatim>\<open>join\<close> but the port key is \<^verbatim>\<open>tjoin\<close>. The claim also gives
  every unrecognised key the category Transform and the default ports. For
  \<^verbatim>\<open>type = "constructor"\<close> both lookups find the member that the registry literal
  inherits: the category is \<^verbatim>\<open>undefined\<close> and the registry information is that member,
  not a port record.
\<close>

theorem port_lookup_key_divergence:
  "componentType (exampleNode ''n_1'' ''oracle_input'' 0 0) = ''oracle_input''
   \<and> getComponentCategory (exampleNode ''n_1'' ''oracle_input'' 0 0) = Some Input
   \<and> componentKey (exampleNode ''n_1'' ''oracle_input'' 0 0) = ''oracle_inpu''
   \<and> getComponentRegistryInfo (exampleNode ''n_1'' ''oracle_input'' 0 0) = Ports defaultPorts
   \<and> map_of portRegistry ''oracle_input'' = Some \<lparr>inputs = [], outputs = [''main'', ''reject'']\<rparr>
   \<and> componentType ((exampleNode ''n_2'' [] 0 0)\<lparr>original_type := None, comp_type := Some ''tJoin''\<rparr>)
       = ''join''
   \<and> componentKey ((exampleNode ''n_2'' [] 0 0)\<lparr>original_type := None, comp_type := Some ''tJoin''\<rparr>)
       = ''tjoin''
   \<and> getComponentRegistryInfo
        ((exampleNode ''n_2'' [] 0 0)\<lparr>original_type := None, comp_type := Some ''tJoin''\<rparr>)
       = Ports defaultPorts
   \<and> map_of portRegistry ''join''
       = Some \<lparr>inputs = [''main'', ''lookup''], outputs = [''main'', ''reject'']\<rparr>
   \<and> componentType
        ((exampleNode ''n_3'' [] 0 0)\<lparr>original_type := None, comp_type := Some ''constructor''\<rparr>)
       = ''constructor''
   \<and> map_of categoryRegistry ''constructor'' = None
   \<and> getComponentCategory
        ((exampleNode ''n_3'' [] 0 0)\<lparr>original_type := None, comp_type := Some ''constructor''\<rparr>)
       = None
   \<and> componentKey
        ((exampleNode ''n_3'' [] 0 0)\<lparr>original_type := None, comp_type := Some ''constructor''\<rparr>)
       = ''constructor''
   \<and> map_of portRegistry ''constructor'' = None
   \<and> getComponentRegistryInfo
        ((exampleNode ''n_3'' [] 0 0)\<lparr>original_type := None, comp_type := Some ''constructor''\<rparr>)
       = InheritedMember ''constructor''"
  by code_simp

lemma handleAnchorMouseUp_input:
  assumes "isDragging drag" and "sourceComponentId drag = Some source"
  shows "handleAnchorMouseUp j drag targetComponentId ''input'' =
     (if source \<noteq> targetComponentId
         \<and> \<not> (\<exists>f\<in>set (existingFlows j). flow_from f = source \<and> flow_to f = targetComponentId)
      then [UpdateJob (j\<lparr>flows := Some (existingFlows j @
                [\<lparr>flow_name = orDefault (sourcePort drag) ''main'', flow_from = source,
                  flow_to = targetComponentId, flow_type = ''flow''\<rparr>])\<rparr>)]
      else [])"
  using assms by (auto simp: handleAnchorMouseUp_def list_ex_iff)

text \<open>
  Claim C8. A press starts a drag exactly when it is on an output anchor; a press on an
  input anchor does nothing. During a drag from \<open>source\<close>, a release on the input anchor
  of \<open>targetComponentId\<close> commits one new flow, named after the source port or \<^verbatim>\<open>main\<close>
  and of type \<^verbatim>\<open>flow\<close>, exactly when the target is another node and no flow with that
  source and target exists; otherwise it does nothing. A release on any other anchor, or
  with no drag in progress, does nothing; the release listener of the drag resets the
  drag state and commits nothing; moving the pointer keeps the drag and its source.
\<close>

theorem manual_connection_protocol:
  "((\<exists>d. SetConnectionDragState d \<in> set (handleAnchorMouseDown componentId port anchorType sx sy))
      \<longleftrightarrow> anchorType = ''output'')
   \<and> handleAnchorMouseDown componentId port ''input'' sx sy = []
   \<and> handleAnchorMouseDown componentId port ''output'' sx sy =
       [SetConnectionDragState
          \<lparr>isDragging = True, sourceComponentId = Some componentId, sourcePort = port,
           currentX = sx, currentY = sy\<rparr>]
   \<and> (isDragging drag \<and> sourceComponentId drag = Some source \<longrightarrow>
        handleAnchorMouseUp j drag targetComponentId ''input'' =
          (if source \<noteq> targetComponentId
              \<and> \<not> (\<exists>f\<in>set (existingFlows j). flow_from f = source \<and> flow_to f = targetComponentId)
           then [UpdateJob (j\<lparr>flows := Some (existingFlows j @
                     [\<lparr>flow_name = (case sourcePort drag of
                                       None \<Rightarrow> ''main''
                                     | Some pn \<Rightarrow> if pn = [] then ''main'' else pn),
                       flow_from = source, flow_to = targetComponentId,
                       flow_type = ''flow''\<rparr>])\<rparr>)]
           else []))
   \<and> (anchorType \<noteq> ''input'' \<or> \<not> isDragging drag \<longrightarrow>
        handleAnchorMouseUp j drag targetComponentId anchorType = [])
   \<and> anchorDragMouseUp = [SetConnectionDragState idleDragState]
   \<and> \<not> isDragging idleDragState
   \<and> (\<forall>d. SetConnectionDragState d \<in> set (anchorDragMouseMove drag cx cy) \<longrightarrow>
        isDragging d = isDragging drag \<and> sourceComponentId d = sourceComponentId drag
        \<and> sourcePort d = sourcePort drag)"
proof -
  have 1: "(\<exists>d. SetConnectionDragState d \<in> set (handleAnchorMouseDown componentId port anchorType sx sy))
      \<longleftrightarrow> anchorType = ''output''"
    by (simp add: handleAnchorMouseDown_def)
  have 2: "handleAnchorMouseDown componentId port ''input'' sx sy = []"
    by (simp add: handleAnchorMouseDown_def)
  have 3: "handleAnchorMouseDown componentId port ''output'' sx sy =
       [SetConnectionDragState
          \<lparr>isDragging = True, sourceComponentId = Some componentId, sourcePort = port,
           currentX = sx, currentY = sy\<rparr>]"
    by (simp add: handleAnchorMouseDown_def)
  have 4: "isDragging drag \<and> sourceComponentId drag = Some source \<longrightarrow>
        handleAnchorMouseUp j drag targetComponentId ''input'' =
          (if source \<noteq> targetComponentId
              \<and> \<not> (\<exists>f\<in>set (existingFlows j). flow_from f = source \<and> flow_to f = targetComponentId)
           then [UpdateJob (j\<lparr>flows := Some (existingFlows j @
                     [\<lparr>flow_name = (case sourcePort drag of
                                       None \<Rightarrow> ''main''
                                     | Some pn \<Rightarrow> if pn = [] then ''main'' else pn),
                       flow_from = source, flow_to = targetComponentId,
                       flow_type = ''flow''\<rparr>])\<rparr>)]
           else [])"
  proof (intro impI, elim conjE)
    assume a: "isDragging drag" and b: "sourceComponentId drag = Some source"
    show "handleAnchorMouseUp j drag targetComponentId ''input'' =
          (if source \<noteq> targetComponentId
              \<and> \<not> (\<exists>f\<in>set (existingFlows j). flow_from f = source \<and> flow_to f = targetComponentId)
           then [UpdateJob (j\<lparr>flows := Some (existingFlows j @
                     [\<lparr>flow_name = (case sourcePort drag of
                                       None \<Rightarrow> ''main''
                                     | Some pn \<Rightarrow> if pn = [] then ''main'' else pn),
                       flow_from = source, flow_to = targetComponentId,
                       flow_type = ''flow''\<rparr>])\<rparr>)]
           else [])"
      by (simp add: handleAnchorMouseUp_input [OF a b] orDefault_def)
  qed
  have 5: "anchorType \<noteq> ''input'' \<or> \<not> isDragging drag \<longrightarrow>
        handleAnchorMouseUp j drag targetComponentId anchorType = []"
    by (auto simp: handleAnchorMouseUp_def)
  have 6: "anchorDragMouseUp = [SetConnectionDragState idleDragState]"
    "\<not> isDragging idleDragState"
    by (simp_all add: anchorDragMouseUp_def idleDragState_def)
  have 7: "\<forall>d. SetConnectionDragState d \<in> set (anchorDragMouseMove drag cx cy) \<longrightarrow>
        isDragging d = isDragging drag \<and> sourceComponentId d = sourceComponentId drag
        \<and> sourcePort d = sourcePort drag"
    by (simp add: anchorDragMouseMove_def)
  from 1 2 3 4 5 6 7 show ?thesis by blast
qed

theorem manual_connection_protocol_witness:
  "isDragging (dragFrom ''a_1'') \<and> sourceComponentId (dragFrom ''a_1'') = Some ''a_1''
   \<and> handleAnchorMouseUp twoNodes (dragFrom ''a_1'') ''b_2'' ''input'' =
       [UpdateJob (twoNodes\<lparr>flows := Some
          [\<lparr>flow_name = ''main'', flow_from = ''a_1'', flow_to = ''b_2'', flow_type = ''flow''\<rparr>]\<rparr>)]
   \<and> handleAnchorMouseUp twoNodes (dragFrom ''a_1'') ''a_1'' ''input'' = []
   \<and> handleAnchorMouseUp
        (twoNodes\<lparr>flows := Some
          [\<lparr>flow_name = ''main'', flow_from = ''a_1'', flow_to = ''b_2'', flow_type = ''flow''\<rparr>]\<rparr>)
        (dragFrom ''a_1'') ''b_2'' ''input'' = []
   \<and> handleAnchorMouseUp twoNodes (dragFrom ''a_1'') ''b_2'' ''output'' = []
   \<and> handleAnchorMouseDown ''a_1'' (Some ''main'') ''output'' 0 0
       = [SetConnectionDragState (dragFrom ''a_1'')]"
proof -
  let ?f = "\<lparr>flow_name = ''main'', flow_from = ''a_1'', flow_to = ''b_2'', flow_type = ''flow''\<rparr>"
  have d: "isDragging (dragFrom ''a_1'')" "sourceComponentId (dragFrom ''a_1'') = Some ''a_1''"
    "sourcePort (dragFrom ''a_1'') = Some ''main''"
    by (simp_all add: dragFrom_def)
  have ex: "existingFlows twoNodes = []" "existingFlows (twoNodes\<lparr>flows := Some [?f]\<rparr>) = [?f]"
    by (simp_all add: existingFlows_def twoNodes_def exampleJob_def)
  have ne: "''output'' \<noteq> ''input''" by simp
  note w1 = manual_connection_protocol [of "''a_1''" "Some ''main''" "''output''" 0 0
      "dragFrom ''a_1''" "''a_1''" twoNodes "''b_2''"]
  note w2 = manual_connection_protocol [of "''a_1''" "Some ''main''" "''output''" 0 0
      "dragFrom ''a_1''" "''a_1''" twoNodes "''a_1''"]
  note w3 = manual_connection_protocol [of "''a_1''" "Some ''main''" "''output''" 0 0
      "dragFrom ''a_1''" "''a_1''" "twoNodes\<lparr>flows := Some [?f]\<rparr>" "''b_2''"]
  from w1 d have 1: "handleAnchorMouseUp twoNodes (dragFrom ''a_1'') ''b_2'' ''input'' =
       [UpdateJob (twoNodes\<lparr>flows := Some [?f]\<rparr>)]"
    by (simp add: ex)
  from w2 d have 2: "handleAnchorMouseUp twoNodes (dragFrom ''a_1'') ''a_1'' ''input'' = []"
    by simp
  from w3 d have 3: "handleAnchorMouseUp (twoNodes\<lparr>flows := Some [?f]\<rparr>)
        (dragFrom ''a_1'') ''b_2'' ''input'' = []"
    by (simp add: ex)
  from w1 ne have 4: "handleAnchorMouseUp twoNodes (dragFrom ''a_1'') ''b_2'' ''output'' = []"
    by blast
  from w1 have 5: "handleAnchorMouseDown ''a_1'' (Some ''main'') ''output'' 0 0
       = [SetConnectionDragState (dragFrom ''a_1'')]"
    by (simp add: dragFrom_def)
  from d(1,2) 1 2 3 4 5 show ?thesis by blast
qed

lemma createFlows_ends:
  assumes "f \<in> set (createFlows fs ns)"
  shows "flow_from f \<in> comp_id ` set ns \<and> flow_to f \<in> comp_id ` set ns"
proof -
  from createFlows_member [OF assms] obtain i where i: "Suc i < length ns"
    and f: "f = newFlow (ns ! i) (ns ! Suc i)"
    by blast
  from i have "ns ! i \<in> set ns" "ns ! Suc i \<in> set ns" by simp_all
  with f show ?thesis by (simp add: newFlow_fields)
qed

lemma set_sortedNodes_subset: "set (sortedNodes j) \<subseteq> set (components j)"
  by (auto simp: sortedNodes_def set_sortNodes availableNodes_def)

lemma referentialIntegrity_iff:
  "referentialIntegrity j \<longleftrightarrow>
     (\<forall>f\<in>set (existingFlows j). flow_from f \<in> nodeIds j \<and> flow_to f \<in> nodeIds j)"
  by (simp add: referentialIntegrity_def list_all_iff)

lemma smartJoin_integrity:
  assumes "referentialIntegrity j" and "UpdateJob j' \<in> set (handleSmartJoin (Some j))"
  shows "referentialIntegrity j'"
proof -
  let ?new = "createFlows (existingFlows j) (sortedNodes j)"
  from commit_shape(2) [OF assms(2)]
  have j': "j' = j\<lparr>flows := Some (existingFlows j @ ?new)\<rparr>" .
  have ids: "nodeIds j' = nodeIds j" by (simp add: j' nodeIds_def)
  have ex: "existingFlows j' = existingFlows j @ ?new" by (simp add: j' existingFlows_def)
  have "\<forall>f\<in>set ?new. flow_from f \<in> nodeIds j \<and> flow_to f \<in> nodeIds j"
    using createFlows_ends set_sortedNodes_subset [of j] unfolding nodeIds_def by blast
  with assms(1) show ?thesis
    by (auto simp: referentialIntegrity_iff ids ex)
qed

lemma delete_integrity:
  assumes "referentialIntegrity j"
  shows "referentialIntegrity
     (j\<lparr>components := filter (\<lambda>component. comp_id component \<noteq> nodeId) (components j),
        flows := Some (filter (\<lambda>f. flow_from f \<noteq> nodeId \<and> flow_to f \<noteq> nodeId)
                         (existingFlows j))\<rparr>)"
  using assms
  by (auto simp: referentialIntegrity_iff nodeIds_def existingFlows_def)

lemma connect_integrity:
  assumes "referentialIntegrity j" and "source \<in> nodeIds j" and "target \<in> nodeIds j"
  shows "referentialIntegrity
     (j\<lparr>flows := Some (existingFlows j @
          [\<lparr>flow_name = n, flow_from = source, flow_to = target, flow_type = ty\<rparr>])\<rparr>)"
  using assms
  by (auto simp: referentialIntegrity_iff nodeIds_def existingFlows_def)

lemma clear_integrity:
  "referentialIntegrity (j\<lparr>components := [], flows := Some [], subjobs := [], triggers := []\<rparr>)"
  by (simp add: referentialIntegrity_iff existingFlows_def)

lemma handleDeleteNode_integrity:
  assumes "jobIntegrity (currentJob s)"
  shows "jobIntegrity (currentJob (applyEffects (handleDeleteNode (currentJob s) nodeId) s))"
proof (cases "currentJob s")
  case None
  with assms show ?thesis by (simp add: handleDeleteNode_def applyEffects_def)
next
  case (Some j)
  with assms have "referentialIntegrity j" by (simp add: jobIntegrity_def)
  from delete_integrity [OF this, of nodeId] Some assms show ?thesis
    by (simp add: handleDeleteNode_def applyEffects_def jobIntegrity_def)
qed

lemma step_integrity:
  assumes int: "jobIntegrity (currentJob s)"
    and ends: "\<forall>t a. e = AnchorMouseUp t a \<longrightarrow> connectionEndsExist s t"
  shows "jobIntegrity (currentJob (step s e))"
proof (cases e)
  case SmartJoin
  from smartJoinEvent_job [of s] show ?thesis
  proof
    assume "currentJob (smartJoinEvent s) = currentJob s"
    with int SmartJoin show ?thesis by (simp add: step_def smartJoinEvent_def)
  next
    assume "\<exists>j j'. currentJob s = Some j \<and> UpdateJob j' \<in> set (handleSmartJoin (Some j))
        \<and> currentJob (smartJoinEvent s) = Some j'"
    then obtain j j' where j: "currentJob s = Some j"
      and u: "UpdateJob j' \<in> set (handleSmartJoin (Some j))"
      and r: "currentJob (smartJoinEvent s) = Some j'"
      by blast
    from int j have "referentialIntegrity j" by (simp add: jobIntegrity_def)
    from smartJoin_integrity [OF this u] r SmartJoin show ?thesis
      by (simp add: step_def smartJoinEvent_def jobIntegrity_def)
  qed
next
  case (NodeClick componentId)
  with int show ?thesis by (simp add: step_def handleNodeClick_def applyEffects_def)
next
  case (KeyDown key inTextField)
  show ?thesis
  proof (cases "\<exists>nodeId. handleKeyDown (currentJob s) (selectedNodeId s) key inTextField
      = handleDeleteNode (currentJob s) nodeId")
    case True
    then obtain nodeId where "handleKeyDown (currentJob s) (selectedNodeId s) key inTextField
      = handleDeleteNode (currentJob s) nodeId" ..
    with handleDeleteNode_integrity [OF int, of nodeId] KeyDown show ?thesis
      by (simp add: step_def)
  next
    case False
    then have "handleKeyDown (currentJob s) (selectedNodeId s) key inTextField = []"
      by (auto simp: handleKeyDown_def split: option.splits if_splits)
    with int KeyDown show ?thesis by (simp add: step_def applyEffects_def)
  qed
next
  case ClearCanvas
  show ?thesis
  proof (cases "currentJob s")
    case None
    with int ClearCanvas show ?thesis
      by (simp add: step_def handleClearCanvas_def applyEffects_def)
  next
    case (Some j)
    with ClearCanvas clear_integrity [of j] show ?thesis
      by (simp add: step_def handleClearCanvas_def applyEffects_def jobIntegrity_def)
  qed
next
  case (AnchorMouseDown componentId port anchorType startX startY)
  with int show ?thesis
    by (simp add: step_def handleAnchorMouseDown_def applyEffects_def)
next
  case (AnchorMouseUp target anchorType)
  show ?thesis
  proof (cases "currentJob s")
    case None
    with int AnchorMouseUp show ?thesis by (simp add: step_def applyEffects_def)
  next
    case (Some j)
    with int have rj: "referentialIntegrity j" by (simp add: jobIntegrity_def)
    from ends AnchorMouseUp Some have t: "target \<in> nodeIds j"
      and src: "\<And>source. sourceComponentId (connectionDrag s) = Some source \<Longrightarrow> source \<in> nodeIds j"
      by (auto simp: connectionEndsExist_def)
    show ?thesis
    proof (cases "\<exists>j'. handleAnchorMouseUp j (connectionDrag s) target anchorType = [UpdateJob j']")
      case False
      then have "handleAnchorMouseUp j (connectionDrag s) target anchorType = []"
        by (auto simp: handleAnchorMouseUp_def split: option.splits if_splits)
      with int AnchorMouseUp Some show ?thesis by (simp add: step_def applyEffects_def)
    next
      case True
      then obtain j' where j': "handleAnchorMouseUp j (connectionDrag s) target anchorType = [UpdateJob j']" ..
      then obtain source where s: "sourceComponentId (connectionDrag s) = Some source"
        and eq: "j' = j\<lparr>flows := Some (existingFlows j @
            [\<lparr>flow_name = orDefault (sourcePort (connectionDrag s)) ''main'', flow_from = source,
              flow_to = target, flow_type = ''flow''\<rparr>])\<rparr>"
        by (auto simp: handleAnchorMouseUp_def split: option.splits if_splits)
      from connect_integrity [OF rj src [OF s] t] eq have "referentialIntegrity j'" by simp
      with j' AnchorMouseUp Some show ?thesis
        by (simp add: step_def applyEffects_def jobIntegrity_def)
    qed
  qed
next
  case (DragMouseMove cursorX cursorY)
  with int show ?thesis by (simp add: step_def anchorDragMouseMove_def applyEffects_def)
next
  case DragMouseUp
  with int show ?thesis by (simp add: step_def anchorDragMouseUp_def applyEffects_def)
qed

text \<open>
  Claim C9, as the code has it. Every event of the canvas keeps referential integrity,
  provided that a release on an input anchor names a target and a drag source that are
  nodes of the current job (the handler itself does not look the ids up). A delete
  request with a non-empty id commits once, and the committed job has neither the node
  nor any flow from or to it.
\<close>

theorem referential_integrity_preserved:
  "(jobIntegrity (currentJob s) \<and> (\<forall>t a. e = AnchorMouseUp t a \<longrightarrow> connectionEndsExist s t)
      \<longrightarrow> jobIntegrity (currentJob (step s e)))
   \<and> (nodeId \<noteq> [] \<longrightarrow>
        handleDeleteNode (Some j) nodeId =
          [UpdateJob (j\<lparr>components := filter (\<lambda>c. comp_id c \<noteq> nodeId) (components j),
                        flows := Some (filter (\<lambda>f. flow_from f \<noteq> nodeId \<and> flow_to f \<noteq> nodeId)
                                         (existingFlows j))\<rparr>),
           SetSelectedNodeId None])
   \<and> (\<forall>j'. UpdateJob j' \<in> set (handleDeleteNode (Some j) nodeId) \<longrightarrow>
        nodeId \<notin> nodeIds j'
        \<and> (\<forall>f\<in>set (existingFlows j'). flow_from f \<noteq> nodeId \<and> flow_to f \<noteq> nodeId)
        \<and> components j' = filter (\<lambda>c. comp_id c \<noteq> nodeId) (components j)
        \<and> existingFlows j' = filter (\<lambda>f. flow_from f \<noteq> nodeId \<and> flow_to f \<noteq> nodeId)
                                (existingFlows j))"
proof (intro conjI impI allI)
  assume "jobIntegrity (currentJob s) \<and> (\<forall>t a. e = AnchorMouseUp t a \<longrightarrow> connectionEndsExist s t)"
  then show "jobIntegrity (currentJob (step s e))" using step_integrity by blast
next
  assume "nodeId \<noteq> []"
  then show "handleDeleteNode (Some j) nodeId =
          [UpdateJob (j\<lparr>components := filter (\<lambda>c. comp_id c \<noteq> nodeId) (components j),
                        flows := Some (filter (\<lambda>f. flow_from f \<noteq> nodeId \<and> flow_to f \<noteq> nodeId)
                                         (existingFlows j))\<rparr>),
           SetSelectedNodeId None]"
    by (simp add: handleDeleteNode_def)
next
  fix j' assume u: "UpdateJob j' \<in> set (handleDeleteNode (Some j) nodeId)"
  then have j': "j' = j\<lparr>components := filter (\<lambda>c. comp_id c \<noteq> nodeId) (components j),
                        flows := Some (filter (\<lambda>f. flow_from f \<noteq> nodeId \<and> flow_to f \<noteq> nodeId)
                                         (existingFlows j))\<rparr>"
    by (auto simp: handleDeleteNode_def split: if_splits)
  show "nodeId \<notin> nodeIds j'" by (auto simp: j' nodeIds_def)
  show "\<forall>f\<in>set (existingFlows j'). flow_from f \<noteq> nodeId \<and> flow_to f \<noteq> nodeId"
    by (simp add: j' existingFlows_def)
  show "components j' = filter (\<lambda>c. comp_id c \<noteq> nodeId) (components j)" by (simp add: j')
  show "existingFlows j' = filter (\<lambda>f. flow_from f \<noteq> nodeId \<and> flow_to f \<noteq> nodeId)
                                (existingFlows j)"
    by (simp add: j' existingFlows_def)
qed


theorem referential_integrity_preserved_witness:
  "jobIntegrity (currentJob ((exampleCanvas connectedPair)\<lparr>selectedNodeId := Some ''a_1''\<rparr>))
   \<and> jobIntegrity (currentJob (step ((exampleCanvas connectedPair)\<lparr>selectedNodeId := Some ''a_1''\<rparr>)
                                   (KeyDown ''Delete'' False)))
   \<and> handleDeleteNode (Some connectedPair) ''a_1'' =
       [UpdateJob (exampleJob [exampleNode ''b_2'' ''tMap'' 200 0] (Some [])),
        SetSelectedNodeId None]
   \<and> connectionEndsExist ((exampleCanvas twoNodes)\<lparr>connectionDrag := dragFrom ''a_1''\<rparr>) ''b_2''
   \<and> jobIntegrity (currentJob (step ((exampleCanvas twoNodes)\<lparr>connectionDrag := dragFrom ''a_1''\<rparr>)
                                   (AnchorMouseUp ''b_2'' ''input'')))
   \<and> currentJob (step ((exampleCanvas twoNodes)\<lparr>connectionDrag := dragFrom ''a_1''\<rparr>)
                      (AnchorMouseUp ''b_2'' ''input''))
       = Some connectedPair"
proof -
  let ?s = "(exampleCanvas connectedPair)\<lparr>selectedNodeId := Some ''a_1''\<rparr>"
  let ?d = "(exampleCanvas twoNodes)\<lparr>connectionDrag := dragFrom ''a_1''\<rparr>"
  have i: "jobIntegrity (currentJob ?s)" by code_simp
  have i2: "jobIntegrity (currentJob ?d)" by code_simp
  have ce: "connectionEndsExist ?d ''b_2''" by code_simp
  have ne: "''a_1'' \<noteq> []" by simp
  have del: "connectedPair\<lparr>components := filter (\<lambda>c. comp_id c \<noteq> ''a_1'') (components connectedPair),
        flows := Some (filter (\<lambda>f. flow_from f \<noteq> ''a_1'' \<and> flow_to f \<noteq> ''a_1'')
                         (existingFlows connectedPair))\<rparr>
      = exampleJob [exampleNode ''b_2'' ''tMap'' 200 0] (Some [])"
    by (simp add: connectedPair_def exampleJob_def exampleNode_def existingFlows_def)
  have cur: "currentJob (step ?d (AnchorMouseUp ''b_2'' ''input'')) = Some connectedPair"
    by code_simp
  note w1 = referential_integrity_preserved [of ?s "KeyDown ''Delete'' False" "''a_1''" connectedPair]
  note w2 = referential_integrity_preserved [of ?d "AnchorMouseUp ''b_2'' ''input''" "''a_1''" connectedPair]
  from w1 i have 1: "jobIntegrity (currentJob (step ?s (KeyDown ''Delete'' False)))"
    by blast
  from w1 ne have 2: "handleDeleteNode (Some connectedPair) ''a_1'' =
       [UpdateJob (exampleJob [exampleNode ''b_2'' ''tMap'' 200 0] (Some [])),
        SetSelectedNodeId None]"
    unfolding del by blast
  from w2 i2 ce have 3: "jobIntegrity (currentJob (step ?d (AnchorMouseUp ''b_2'' ''input'')))"
    by blast
  from i 1 2 ce 3 cur show ?thesis by blast
qed

text \<open>
  Select node \<^verbatim>\<open>a_1\<close>, press its output anchor, delete it with the keyboard while the
  drag is in progress, then release on the input anchor of \<^verbatim>\<open>b_2\<close>: the last step starts
  from a job with integrity and commits a flow whose source no longer exists.
\<close>

theorem dangling_flow_after_delete_counterexample:
  "jobIntegrity (currentJob (exampleCanvas twoNodes))
   \<and> jobIntegrity (currentJob
        (step (step (step (exampleCanvas twoNodes) (NodeClick ''a_1''))
                 (AnchorMouseDown ''a_1'' (Some ''main'') ''output'' 0 0))
           (KeyDown ''Delete'' False)))
   \<and> currentJob
        (step (step (step (step (exampleCanvas twoNodes) (NodeClick ''a_1''))
                       (AnchorMouseDown ''a_1'' (Some ''main'') ''output'' 0 0))
                 (KeyDown ''Delete'' False))
           (AnchorMouseUp ''b_2'' ''input''))
       = Some (exampleJob [exampleNode ''b_2'' ''tMap'' 200 0]
                 (Some [\<lparr>flow_name = ''main'', flow_from = ''a_1'', flow_to = ''b_2'',
                         flow_type = ''flow''\<rparr>]))
   \<and> \<not> jobIntegrity (currentJob
        (step (step (step (step (exampleCanvas twoNodes) (NodeClick ''a_1''))
                       (AnchorMouseDown ''a_1'' (Some ''main'') ''output'' 0 0))
                 (KeyDown ''Delete'' False))
           (AnchorMouseUp ''b_2'' ''input'')))"
  by code_simp

end
